theory Spec2Isabelle
  imports Main "HOL-Library.AList"
begin

section \<open>JavaScript values, objects and the object store\<close>

text \<open>
  The library is duck-typed JavaScript: a token, a response body, an options object are
  all plain objects. A value is a primitive or a reference to an object of the store.
  Numbers are integers (millisecond time stamps and second counts, far below \<open>2^53\<close>,
  where doubles are exact) or \<open>NaN\<close>. Arrays and functions are not values of the model.
\<close>

datatype jv = Undefined | Null | Bool bool | Num int | NaN | Str string | Ref nat

text \<open>An object is its list of own properties in insertion order; the store is the
  list of all objects, an address is an index into it, allocation appends.\<close>

type_synonym obj = "(string \<times> jv) list"
type_synonym heap = "obj list"

record jserr =
  ename :: string
  emessage :: string
  ecode :: jv

definition alloc :: "obj \<Rightarrow> heap \<Rightarrow> nat \<times> heap" where
  "alloc ob h = (length h, h @ [ob])"

definition props :: "heap \<Rightarrow> nat \<Rightarrow> obj" where
  "props h a = (if a < length h then h ! a else [])"

text \<open>\<open>prop_read h a k\<close> is \<open>o[k]\<close> for the object at \<open>a\<close>: a missing property reads
  \<open>undefined\<close>. \<open>prop_write a k v\<close> is \<open>o[k] = v\<close>: an existing property keeps its place,
  a new one goes last.\<close>

definition prop_read :: "heap \<Rightarrow> nat \<Rightarrow> string \<Rightarrow> jv" where
  "prop_read h a k = (case map_of (props h a) k of None \<Rightarrow> Undefined | Some v \<Rightarrow> v)"

definition prop_write :: "nat \<Rightarrow> string \<Rightarrow> jv \<Rightarrow> heap \<Rightarrow> heap" where
  "prop_write a k v h = (if a < length h then h[a := AList.update k v (h ! a)] else h)"

subsection \<open>Coercions\<close>

fun truthy :: "jv \<Rightarrow> bool" where
  "truthy Undefined = False"
| "truthy Null = False"
| "truthy (Bool b) = b"
| "truthy (Num n) = (n \<noteq> 0)"
| "truthy NaN = False"
| "truthy (Str s) = (s \<noteq> [])"
| "truthy (Ref a) = True"

definition digit :: "nat \<Rightarrow> char" where
  "digit n = char_of (48 + n)"

function show_nat :: "nat \<Rightarrow> string" where
  "show_nat n = (if n < 10 then [digit n] else show_nat (n div 10) @ [digit (n mod 10)])"
  by pat_completeness auto
termination
  by (relation "measure id") auto

definition show_int :: "int \<Rightarrow> string" where
  "show_int i = (if i < 0 then CHR ''-'' # show_nat (nat (- i)) else show_nat (nat i))"

text \<open>\<open>ToString\<close>, as string concatenation, property keys and \<open>new Error(m)\<close> apply it.
  Every object of the model is a plain object.\<close>

fun to_string :: "jv \<Rightarrow> string" where
  "to_string Undefined = ''undefined''"
| "to_string Null = ''null''"
| "to_string (Bool b) = (if b then ''true'' else ''false'')"
| "to_string (Num n) = show_int n"
| "to_string NaN = ''NaN''"
| "to_string (Str s) = s"
| "to_string (Ref a) = ''[object Object]''"

text \<open>\<open>ToNumber\<close>, with \<open>None\<close> for \<open>NaN\<close>. The model does not parse numeric strings:
  a string or an object used as a number is outside its scope, and the theorems on
  expiry arithmetic ask for number fields.\<close>

fun to_number :: "jv \<Rightarrow> int option" where
  "to_number Undefined = None"
| "to_number Null = Some 0"
| "to_number (Bool b) = Some (if b then 1 else 0)"
| "to_number (Num n) = Some n"
| "to_number NaN = None"
| "to_number (Str s) = None"
| "to_number (Ref a) = None"

definition js_mul :: "jv \<Rightarrow> jv \<Rightarrow> jv" where
  "js_mul a b = (case (to_number a, to_number b) of (Some x, Some y) \<Rightarrow> Num (x * y) | _ \<Rightarrow> NaN)"

fun stringy :: "jv \<Rightarrow> bool" where
  "stringy (Str s) = True"
| "stringy (Ref a) = True"
| "stringy _ = False"

definition js_add :: "jv \<Rightarrow> jv \<Rightarrow> jv" where
  "js_add a b =
     (if stringy a \<or> stringy b then Str (to_string a @ to_string b)
      else case (to_number a, to_number b) of (Some x, Some y) \<Rightarrow> Num (x + y) | _ \<Rightarrow> NaN)"

text \<open>\<open>a < b\<close> where \<open>a\<close> is a number, as in \<open>isValid\<close>: a comparison with \<open>NaN\<close> is false.\<close>

definition js_lt :: "jv \<Rightarrow> jv \<Rightarrow> bool" where
  "js_lt a b = (case (to_number a, to_number b) of (Some x, Some y) \<Rightarrow> x < y | _ \<Rightarrow> False)"

subsection \<open>Property access on values\<close>

definition TypeError :: "string \<Rightarrow> jserr" where
  "TypeError m = \<lparr>ename = ''TypeError'', emessage = m, ecode = Undefined\<rparr>"

text \<open>\<open>v.k\<close>: on \<open>undefined\<close> and \<open>null\<close> a TypeError (its name is the language's, the
  wording of its message is the engine's and is fixed here); on another primitive none
  of the names this program reads is defined.\<close>

fun get_prop :: "heap \<Rightarrow> jv \<Rightarrow> string \<Rightarrow> jserr + jv" where
  "get_prop h Undefined k = Inl (TypeError (''Cannot read property '' @ k @ '' of undefined''))"
| "get_prop h Null k = Inl (TypeError (''Cannot read property '' @ k @ '' of null''))"
| "get_prop h (Ref a) k = Inr (prop_read h a k)"
| "get_prop h v k = Inr Undefined"

text \<open>\<open>v.k = x\<close> under \<open>"use strict"\<close>: a TypeError on every primitive.\<close>

fun set_prop :: "heap \<Rightarrow> jv \<Rightarrow> string \<Rightarrow> jv \<Rightarrow> jserr + heap" where
  "set_prop h (Ref a) k x = Inr (prop_write a k x h)"
| "set_prop h v k x = Inl (TypeError (''Cannot set property '' @ k @ '' of '' @ to_string v))"

section \<open>AccessToken\<close>

datatype access_token = AccessToken (data: jv)

text \<open>
  \<^verbatim>\<open>return !!this.data.access_token &&
     (new Date().getTime()) < (this.data.create_at + this.data.expires_in * 1000);\<close>
  \<open>now\<close> is the value of \<open>new Date().getTime()\<close>.
\<close>

definition isValid :: "access_token \<Rightarrow> int \<Rightarrow> heap \<Rightarrow> jserr + bool" where
  "isValid t now h =
     (case get_prop h (data t) ''access_token'' of
        Inl e \<Rightarrow> Inl e
      | Inr tok \<Rightarrow>
          if \<not> truthy tok then Inr False
          else (case get_prop h (data t) ''create_at'' of
                  Inl e \<Rightarrow> Inl e
                | Inr created \<Rightarrow>
                    (case get_prop h (data t) ''expires_in'' of
                       Inl e \<Rightarrow> Inl e
                     | Inr expires \<Rightarrow>
                         Inr (js_lt (Num now) (js_add created (js_mul expires (Num 1000)))))))"

section \<open>The world: store, clock and network\<close>

text \<open>
  \<open>urllib.requestThunk(url, options)\<close> is the environment. It answers the \<open>n\<close>-th request
  of a run, given the url, the options object and the store it can read them from, with a
  thrown error or a result whose \<open>data\<close> is the decoded body (and whose HTTP status the
  library never reads); the objects of a decoded body are new objects, appended to the
  store, and no object of the store is changed by the transport; the call takes
  \<open>elapsed\<close> milliseconds.
\<close>

record response =
  status :: int
  outcome :: "jserr + jv"
  fresh :: "obj list"
  elapsed :: nat

type_synonym transport = "nat \<Rightarrow> string \<Rightarrow> jv \<Rightarrow> heap \<Rightarrow> response"

text \<open>\<open>sent\<close> lists the requests made so far: url and options object.\<close>

record world =
  heap :: heap
  clock :: int
  sent :: "(string \<times> jv) list"

text \<open>A generator function is run to its end: it returns a value or throws, and
  leaves a new world.\<close>

type_synonym 'a js = "world \<Rightarrow> (jserr + 'a) \<times> world"

definition js_return :: "'a \<Rightarrow> 'a js" where
  "js_return x w = (Inr x, w)"

definition js_throw :: "jserr \<Rightarrow> 'a js" where
  "js_throw e w = (Inl e, w)"

definition js_bind :: "'a js \<Rightarrow> ('a \<Rightarrow> 'b js) \<Rightarrow> 'b js" where
  "js_bind m f w = (case m w of (Inl e, w') \<Rightarrow> (Inl e, w') | (Inr x, w') \<Rightarrow> f x w')"

definition js_get :: "jv \<Rightarrow> string \<Rightarrow> jv js" where
  "js_get v k w = (case get_prop (heap w) v k of Inl e \<Rightarrow> (Inl e, w) | Inr x \<Rightarrow> (Inr x, w))"

definition js_set :: "jv \<Rightarrow> string \<Rightarrow> jv \<Rightarrow> unit js" where
  "js_set v k x w =
     (case set_prop (heap w) v k x of Inl e \<Rightarrow> (Inl e, w) | Inr h \<Rightarrow> (Inr (), w\<lparr>heap := h\<rparr>))"

definition js_new :: "obj \<Rightarrow> jv js" where
  "js_new ob w = (let (a, h) = alloc ob (heap w) in (Inr (Ref a), w\<lparr>heap := h\<rparr>))"

section \<open>The OAuth client\<close>

record oauth =
  clientId :: jv
  clientSecret :: jv
  redirectUri :: jv
  store :: nat
  getToken :: "jv \<Rightarrow> jv js"
  saveToken :: "jv \<Rightarrow> jv \<Rightarrow> unit js"
  defaults :: jv

text \<open>The default adapter keeps the tokens in the object \<open>this.store\<close>, under the uid
  as property key. (A uid that names a member of \<open>Object.prototype\<close> is outside the model.)\<close>

definition default_getToken :: "nat \<Rightarrow> jv \<Rightarrow> jv js" where
  "default_getToken st uid w = (Inr (prop_read (heap w) st (to_string uid)), w)"

definition default_saveToken :: "nat \<Rightarrow> jv \<Rightarrow> jv \<Rightarrow> unit js" where
  "default_saveToken st uid token w =
     (Inr (), w\<lparr>heap := prop_write st (to_string uid) token (heap w)\<rparr>)"

text \<open>The constructor; an adapter that is not given is \<open>None\<close>. The warning printed
  under \<open>NODE_ENV === 'production'\<close> is not modelled.\<close>

definition OAuth ::
  "jv \<Rightarrow> jv \<Rightarrow> jv \<Rightarrow> (jv \<Rightarrow> jv js) option \<Rightarrow> (jv \<Rightarrow> jv \<Rightarrow> unit js) option
   \<Rightarrow> world \<Rightarrow> oauth \<times> world" where
  "OAuth cid secret redirect getT saveT w =
     (let (st, h1) = alloc [] (heap w);
          (d, h2) = alloc [] h1
      in (\<lparr>clientId = cid, clientSecret = secret, redirectUri = redirect, store = st,
            getToken = (case getT of Some g \<Rightarrow> g | None \<Rightarrow> default_getToken st),
            saveToken = (case saveT of Some s \<Rightarrow> s | None \<Rightarrow> default_saveToken st),
            defaults = Ref d\<rparr>,
          w\<lparr>heap := h2\<rparr>))"

definition setOpts :: "oauth \<Rightarrow> jv \<Rightarrow> oauth" where
  "setOpts c opts = c\<lparr>defaults := opts\<rparr>"

subsection \<open>request\<close>

text \<open>lodash's \<open>extend(dst, src)\<close>: every property of \<open>src\<close> is assigned to \<open>dst\<close>, in
  order. Nothing is copied from a source that is not an object, nothing is kept of an
  assignment to a primitive. (The index properties of a string source are outside the model.)\<close>

definition extend :: "jv \<Rightarrow> jv \<Rightarrow> heap \<Rightarrow> heap" where
  "extend dst src h =
     (case (dst, src) of
        (Ref d, Ref s) \<Rightarrow> fold (\<lambda>k h'. prop_write d k (prop_read h' s k) h') (map fst (props h s)) h
      | _ \<Rightarrow> h)"

text \<open>The body of \<open>for (const key in opts)\<close>, for the options object at \<open>opt\<close> and the
  per-call object at \<open>s\<close>.\<close>

definition merge_key :: "nat \<Rightarrow> nat \<Rightarrow> string \<Rightarrow> heap \<Rightarrow> heap" where
  "merge_key opt s key h =
     (if key \<noteq> ''headers'' then prop_write opt key (prop_read h s key) h
      else if truthy (prop_read h s ''headers'') then
        (let hv = prop_read h opt ''headers'';
             h1 = (if truthy hv then prop_write opt ''headers'' hv h
                   else (let (e, h') = alloc [] h in prop_write opt ''headers'' (Ref e) h'))
         in extend (prop_read h1 opt ''headers'') (prop_read h1 s ''headers'') h1)
      else h)"

text \<open>Lines 85 to 97 of \<open>request\<close>: the options object handed to the transport. The keys
  of \<open>opts\<close> are those it has when the loop starts; a primitive has none (the index keys
  of a string are outside the model).\<close>

definition build_options :: "jv \<Rightarrow> jv \<Rightarrow> heap \<Rightarrow> nat \<times> heap" where
  "build_options dflt opts h =
     (let (opt, h1) = alloc [] h;
          h2 = extend (Ref opt) dflt h1;
          (opts', h3) = (if truthy opts then (opts, h2)
                         else (let (e, h') = alloc [] h2 in (Ref e, h')))
      in (opt, (case opts' of
                  Ref s \<Rightarrow> fold (merge_key opt s) (map fst (props h3 s)) h3
                | _ \<Rightarrow> h3)))"

text \<open>\<open>new Error(m)\<close>: no message for \<open>undefined\<close>.\<close>

definition new_Error :: "jv \<Rightarrow> jserr" where
  "new_Error m =
     \<lparr>ename = ''Error'', emessage = (if m = Undefined then [] else to_string m), ecode = Undefined\<rparr>"

definition request :: "transport \<Rightarrow> oauth \<Rightarrow> string \<Rightarrow> jv \<Rightarrow> jv js" where
  "request net c url opts w =
     (let (opt, h) = build_options (defaults c) opts (heap w);
          r = net (length (sent w)) url (Ref opt) h;
          w' = w\<lparr>heap := h @ fresh r, clock := clock w + int (elapsed r),
                 sent := sent w @ [(url, Ref opt)]\<rparr>
      in case outcome r of
           Inl err \<Rightarrow> (Inl (err\<lparr>ename := ''WeiboAPI'' @ ename err\<rparr>), w')
         | Inr body \<Rightarrow>
             (case get_prop (heap w') body ''error'' of
                Inl e \<Rightarrow> (Inl e, w')
              | Inr er \<Rightarrow>
                  if truthy er then
                    (case get_prop (heap w') body ''error_description'' of
                       Inl e \<Rightarrow> (Inl e, w')
                     | Inr descr \<Rightarrow>
                         (case get_prop (heap w') body ''error_code'' of
                            Inl e \<Rightarrow> (Inl e, w')
                          | Inr cd \<Rightarrow>
                              (Inl ((new_Error descr)\<lparr>ename := ''WeiboAPIError'', ecode := cd\<rparr>), w')))
                  else (Inr body, w')))"

subsection \<open>Authorization URL\<close>

text \<open>\<open>querystring.stringify\<close> is Node's; it is a parameter here, applied to the
  properties of the object literal \<open>info\<close> in the order they are written.\<close>

definition or_default :: "jv \<Rightarrow> jv \<Rightarrow> jv" where
  "or_default v d = (if truthy v then v else d)"

definition getAuthorizeURL :: "(obj \<Rightarrow> string) \<Rightarrow> oauth \<Rightarrow> jv \<Rightarrow> jv \<Rightarrow> jv \<Rightarrow> string" where
  "getAuthorizeURL stringify c redirect state scope =
     (let url = ''https://api.weibo.com/oauth2/authorize'';
          info = [(''client_id'', clientId c),
                  (''redirect_uri'', redirectUri c),
                  (''response_type'', Str ''code''),
                  (''scope'', or_default scope (Str ''users_show'')),
                  (''state'', or_default state (Str []))]
      in url @ ''?'' @ stringify info @ ''#weibo_redirect'')"

subsection \<open>Tokens\<close>

definition now :: "int js" where
  "now w = (Inr (clock w), w)"

definition processToken :: "oauth \<Rightarrow> jv \<Rightarrow> access_token js" where
  "processToken c dat =
     js_bind now (\<lambda>t.
     js_bind (js_set dat ''create_at'' (Num t)) (\<lambda>_.
     js_bind (js_get dat ''uid'') (\<lambda>uid.
     js_bind (saveToken c uid dat) (\<lambda>_.
     js_return (AccessToken dat)))))"

definition getAccessToken :: "transport \<Rightarrow> oauth \<Rightarrow> jv \<Rightarrow> access_token js" where
  "getAccessToken net c code =
     js_bind (js_new [(''client_id'', clientId c),
                      (''client_secret'', clientSecret c),
                      (''code'', code),
                      (''grant_type'', Str ''authorization_code''),
                      (''redirect_uri'', redirectUri c)]) (\<lambda>info.
     js_bind (js_new [(''method'', Str ''POST''),
                      (''data'', info),
                      (''dataType'', Str ''json'')]) (\<lambda>args.
     js_bind (request net c ''https://api.weibo.com/oauth2/access_token'' args) (\<lambda>dat.
     processToken c dat)))"

definition refreshAccessToken :: "transport \<Rightarrow> oauth \<Rightarrow> jv \<Rightarrow> access_token js" where
  "refreshAccessToken net c refreshToken =
     js_bind (js_new [(''client_id'', clientId c),
                      (''client_secret'', clientSecret c),
                      (''grant_type'', Str ''refresh_token''),
                      (''redirect_uri'', redirectUri c),
                      (''refresh_token'', refreshToken)]) (\<lambda>info.
     js_bind (js_new [(''data'', info),
                      (''dataType'', Str ''json'')]) (\<lambda>args.
     js_bind (request net c ''https://api.weibo.com/oauth2/access_token'' args) (\<lambda>dat.
     processToken c dat)))"

subsection \<open>The user profile\<close>

text \<open>\<open>_getUser\<close> of the source.\<close>

definition getUser' :: "transport \<Rightarrow> oauth \<Rightarrow> jv \<Rightarrow> jv \<Rightarrow> jv js" where
  "getUser' net c options accessToken =
     js_bind (js_get options ''uid'') (\<lambda>uid.
     js_bind (js_get options ''lang'') (\<lambda>lang.
     js_bind (js_new [(''access_token'', accessToken),
                      (''uid'', uid),
                      (''lang'', or_default lang (Str ''en''))]) (\<lambda>info.
     js_bind (js_new [(''data'', info),
                      (''dataType'', Str ''json'')]) (\<lambda>args.
     request net c ''https://api.weibo.com/2/users/show.json'' args))))"

text \<open>\<open>typeof v === 'object'\<close>: objects and \<open>null\<close>.\<close>

fun typeof_object :: "jv \<Rightarrow> bool" where
  "typeof_object (Ref a) = True"
| "typeof_object Null = True"
| "typeof_object _ = False"

definition NoOAuthTokenError :: "jv \<Rightarrow> jserr" where
  "NoOAuthTokenError uid =
     (new_Error (Str (''No token for '' @ to_string uid @ '', please authorize first.'')))
       \<lparr>ename := ''NoOAuthTokenError''\<rparr>"

definition js_isValid :: "access_token \<Rightarrow> bool js" where
  "js_isValid t w = (case isValid t (clock w) (heap w) of Inl e \<Rightarrow> (Inl e, w) | Inr b \<Rightarrow> (Inr b, w))"

definition getUser :: "transport \<Rightarrow> oauth \<Rightarrow> jv \<Rightarrow> jv js" where
  "getUser net c options0 =
     js_bind (if \<not> typeof_object options0 then js_new [(''uid'', options0)]
              else js_return options0) (\<lambda>options.
     js_bind (js_get options ''uid'') (\<lambda>uid.
     js_bind (getToken c uid) (\<lambda>dat.
       if \<not> truthy dat then
         js_bind (js_get options ''uid'') (\<lambda>uid'. js_throw (NoOAuthTokenError uid'))
       else
         (let token = AccessToken dat in
          js_bind (js_isValid token) (\<lambda>valid.
          js_bind (if valid then js_get (data token) ''access_token''
                   else js_bind (js_get (data token) ''refresh_token'') (\<lambda>rt.
                        js_bind (refreshAccessToken net c rt) (\<lambda>newToken.
                        js_get (data newToken) ''access_token''))) (\<lambda>accessToken.
          getUser' net c options accessToken))))))"

section \<open>Auxiliary definitions\<close>

text \<open>The properties \<open>ks\<close> of the object at \<open>s\<close>, assigned in order to the property list \<open>ob\<close>;
  the copy of the defaults, and the options object of a call without \<open>headers\<close>.\<close>

definition copy_props :: "heap \<Rightarrow> nat \<Rightarrow> string list \<Rightarrow> obj \<Rightarrow> obj" where
  "copy_props h s ks ob = fold (\<lambda>k. AList.update k (prop_read h s k)) ks ob"

definition default_copy :: "jv \<Rightarrow> heap \<Rightarrow> obj" where
  "default_copy dflt h =
     (case dflt of Ref d \<Rightarrow> copy_props h d (map fst (props h d)) [] | _ \<Rightarrow> [])"

definition merged_options :: "jv \<Rightarrow> heap \<Rightarrow> nat \<Rightarrow> obj" where
  "merged_options dflt h s = copy_props h s (map fst (props h s)) (default_copy dflt h)"

text \<open>The value of \<open>v.k\<close> where the read does not throw; a value that is an object of the
  store, or is falsy; the value of a property in a property list.\<close>

definition peek :: "heap \<Rightarrow> jv \<Rightarrow> string \<Rightarrow> jv" where
  "peek h v k = (case get_prop h v k of Inl e \<Rightarrow> Undefined | Inr x \<Rightarrow> x)"

definition object_or_falsy :: "heap \<Rightarrow> jv \<Rightarrow> bool" where
  "object_or_falsy h v = (case v of Ref a \<Rightarrow> a < length h | _ \<Rightarrow> \<not> truthy v)"

definition lookup :: "obj \<Rightarrow> string \<Rightarrow> jv" where
  "lookup ob k = (case map_of ob k of None \<Rightarrow> Undefined | Some v \<Rightarrow> v)"

text \<open>A client made by the constructor with the default adapter, in an empty world, and
  transports that answer every request with one fixed body, or the token endpoint with
  a token and every other address with a profile.\<close>

definition falsy_error_net :: transport where
  "falsy_error_net n url opt h =
     \<lparr>status = 200, outcome = Inr (Ref (length h)),
      fresh = [[(''error'', Str []), (''error_code'', Num 21327),
                (''error_description'', Str ''expired'')]],
      elapsed = 0\<rparr>"

definition null_net :: transport where
  "null_net n url opt h = \<lparr>status = 200, outcome = Inr Null, fresh = [], elapsed = 0\<rparr>"

definition error_net :: transport where
  "error_net n url opt h =
     \<lparr>status = 200, outcome = Inr (Ref (length h)),
      fresh = [[(''error'', Str ''bad''), (''error_code'', Num 21327),
                (''error_description'', Str ''expired'')]],
      elapsed = 0\<rparr>"

definition empty_world :: world where
  "empty_world = \<lparr>heap = [], clock = 1000, sent = []\<rparr>"

definition example_client :: oauth where
  "example_client = fst (OAuth (Str ''id'') (Str ''secret'') (Str ''http://cb'') None None empty_world)"

definition example_world :: world where
  "example_world = snd (OAuth (Str ''id'') (Str ''secret'') (Str ''http://cb'') None None empty_world)"

definition token_net :: transport where
  "token_net n url opt h =
     (if url = ''https://api.weibo.com/oauth2/access_token'' then
        \<lparr>status = 200, outcome = Inr (Ref (length h)),
         fresh = [[(''access_token'', Str ''2.00abc''), (''expires_in'', Num 7200),
                   (''refresh_token'', Str ''r2''), (''uid'', Str ''u1'')]],
         elapsed = 5\<rparr>
      else
        \<lparr>status = 200, outcome = Inr (Ref (length h)),
         fresh = [[(''id'', Num 123456), (''screen_name'', Str ''bottle'')]],
         elapsed = 7\<rparr>)"

text \<open>A world where the client's options carry headers, and a per-call options object
  with a header of its own.\<close>

definition headers_world :: world where
  "headers_world =
     \<lparr>heap = [[], [],
              [(''headers'', Ref 3), (''timeout'', Num 15000)],
              [(''User-Agent'', Str ''sdk'')],
              [(''headers'', Ref 5)],
              [(''X-Trace'', Str ''1'')]],
      clock = 1000, sent = []\<rparr>"

text \<open>A world where the default store holds for \<open>u1\<close> a token that expired long ago, the
  world after its refresh, and the world after the profile was fetched.\<close>

definition stale_world :: world where
  "stale_world =
     \<lparr>heap = [[(''u1'', Ref 2)], [],
              [(''access_token'', Str ''2.00old''), (''expires_in'', Num 7200),
               (''refresh_token'', Str ''r1''), (''uid'', Str ''u1''), (''create_at'', Num 1000)],
              [(''uid'', Str ''u1'')]],
      clock = 9000000, sent = []\<rparr>"

definition refreshed_world :: world where
  "refreshed_world =
     \<lparr>heap = [[(''u1'', Ref 7)], [],
              [(''access_token'', Str ''2.00old''), (''expires_in'', Num 7200),
               (''refresh_token'', Str ''r1''), (''uid'', Str ''u1''), (''create_at'', Num 1000)],
              [(''uid'', Str ''u1'')],
              [(''client_id'', Str ''id''), (''client_secret'', Str ''secret''),
               (''grant_type'', Str ''refresh_token''), (''redirect_uri'', Str ''http://cb''),
               (''refresh_token'', Str ''r1'')],
              [(''data'', Ref 4), (''dataType'', Str ''json'')],
              [(''data'', Ref 4), (''dataType'', Str ''json'')],
              [(''access_token'', Str ''2.00abc''), (''expires_in'', Num 7200),
               (''refresh_token'', Str ''r2''), (''uid'', Str ''u1''), (''create_at'', Num 9000005)]],
      clock = 9000005,
      sent = [(''https://api.weibo.com/oauth2/access_token'', Ref 6)]\<rparr>"

definition fetched_world :: world where
  "fetched_world =
     \<lparr>heap = heap refreshed_world @
             [[(''access_token'', Str ''2.00abc''), (''uid'', Str ''u1''), (''lang'', Str ''en'')],
              [(''data'', Ref 8), (''dataType'', Str ''json'')],
              [(''data'', Ref 8), (''dataType'', Str ''json'')],
              [(''id'', Num 123456), (''screen_name'', Str ''bottle'')]],
      clock = 9000012,
      sent = [(''https://api.weibo.com/oauth2/access_token'', Ref 6),
              (''https://api.weibo.com/2/users/show.json'', Ref 10)]\<rparr>"

text \<open>The objects that a value leads to: the object itself, and every object that a
  property of a reachable object refers to.\<close>

inductive reaches :: "heap \<Rightarrow> jv \<Rightarrow> nat \<Rightarrow> bool" for h :: heap where
  here: "reaches h (Ref b) b"
| step: "reaches h (prop_read h b k) c \<Longrightarrow> reaches h (Ref b) c"

text \<open>No property of the store refers to the object \<open>a\<close> (its own \<open>access_token\<close> apart), so
  that \<open>a\<close> is reachable from no other object; the objects \<open>xs\<close> do not refer to \<open>a\<close>.\<close>

definition unref :: "nat \<Rightarrow> heap \<Rightarrow> bool" where
  "unref a h \<longleftrightarrow> (\<forall>b k. (b \<noteq> a \<or> k \<noteq> ''access_token'') \<longrightarrow> prop_read h b k \<noteq> Ref a)"

definition plain_objs :: "nat \<Rightarrow> obj list \<Rightarrow> bool" where
  "plain_objs a xs \<longleftrightarrow> (\<forall>ob \<in> set xs. \<forall>k. lookup ob k \<noteq> Ref a)"

text \<open>Two stores that differ at most in the \<open>access_token\<close> property of the object \<open>a\<close>;
  two worlds that differ at most so, where nothing else refers to \<open>a\<close>; an operation that,
  run in two such worlds, gives the same result and leaves two such worlds.\<close>

definition sim :: "nat \<Rightarrow> heap \<Rightarrow> heap \<Rightarrow> bool" where
  "sim a h h' \<longleftrightarrow>
     a < length h \<and> length h' = length h \<and>
     (\<forall>b. b \<noteq> a \<longrightarrow> props h' b = props h b) \<and>
     (\<forall>k. k \<noteq> ''access_token'' \<longrightarrow> prop_read h' a k = prop_read h a k)"

definition sim_world :: "nat \<Rightarrow> world \<Rightarrow> world \<Rightarrow> bool" where
  "sim_world a w w' \<longleftrightarrow>
     sim a (heap w) (heap w') \<and> unref a (heap w) \<and> clock w' = clock w \<and> sent w' = sent w"

definition agree :: "nat \<Rightarrow> 'x js \<Rightarrow> world \<Rightarrow> world \<Rightarrow> bool" where
  "agree a f w w' \<longleftrightarrow> fst (f w') = fst (f w) \<and> sim_world a (snd (f w)) (snd (f w'))"

text \<open>The outcome of \<open>request\<close> for a decoded body, read in the store \<open>h\<close>.\<close>

definition body_result :: "heap \<Rightarrow> jv \<Rightarrow> jserr + jv" where
  "body_result h body =
     (case get_prop h body ''error'' of
        Inl e \<Rightarrow> Inl e
      | Inr er \<Rightarrow>
          if truthy er then
            (case get_prop h body ''error_description'' of
               Inl e \<Rightarrow> Inl e
             | Inr descr \<Rightarrow>
                 (case get_prop h body ''error_code'' of
                    Inl e \<Rightarrow> Inl e
                  | Inr cd \<Rightarrow> Inl ((new_Error descr)\<lparr>ename := ''WeiboAPIError'', ecode := cd\<rparr>)))
          else Inr body)"

text \<open>A transport that learns the \<open>access_token\<close> of the object \<open>a\<close> only from what it is sent:
  for request options from which \<open>a\<close> is not reachable, its answer is the same in two stores
  that differ in that property only. It may read every property of the options it is sent,
  the access token of the request among them. A decoded body is a value of the response
  or a new object, and does not refer to \<open>a\<close>.\<close>

definition blind_net :: "nat \<Rightarrow> transport \<Rightarrow> bool" where
  "blind_net a net \<longleftrightarrow>
     (\<forall>n url v g g'. sim a g g' \<and> \<not> reaches g v a \<longrightarrow> net n url v g' = net n url v g) \<and>
     (\<forall>n url v g. a < length g \<longrightarrow>
        outcome (net n url v g) \<noteq> Inr (Ref a) \<and> plain_objs a (fresh (net n url v g)))"

text \<open>An adapter that learns the \<open>access_token\<close> of the object \<open>a\<close> only from its arguments:
  called with arguments other than \<open>a\<close>, in two worlds that differ in that property only and
  where nothing else refers to \<open>a\<close>, it agrees. It may read, copy and serialise the token it
  is given and the tokens of the store.\<close>

definition blind_adapter :: "nat \<Rightarrow> oauth \<Rightarrow> bool" where
  "blind_adapter a c \<longleftrightarrow>
     (\<forall>uid w w'. sim_world a w w' \<and> uid \<noteq> Ref a \<longrightarrow> agree a (getToken c uid) w w') \<and>
     (\<forall>uid t w w'. sim_world a w w' \<and> uid \<noteq> Ref a \<and> t \<noteq> Ref a \<longrightarrow>
        agree a (saveToken c uid t) w w')"

text \<open>The options, client id, secret and redirect URI of the client are not the object \<open>a\<close>.\<close>

definition apart :: "nat \<Rightarrow> oauth \<Rightarrow> bool" where
  "apart a c \<longleftrightarrow>
     defaults c \<noteq> Ref a \<and> clientId c \<noteq> Ref a \<and> clientSecret c \<noteq> Ref a \<and> redirectUri c \<noteq> Ref a"

text \<open>A transport that checks the access token of a profile request: the token endpoint
  answers a new token \<open>2.00abc\<close>; the profile endpoint answers the profile when the request's
  \<open>data.access_token\<close> is that token, and an error body otherwise.\<close>

definition validating_net :: transport where
  "validating_net n url opt h =
     (if url = ''https://api.weibo.com/oauth2/access_token'' then
        \<lparr>status = 200, outcome = Inr (Ref (length h)),
         fresh = [[(''access_token'', Str ''2.00abc''), (''expires_in'', Num 7200),
                   (''refresh_token'', Str ''r2''), (''uid'', Str ''u1'')]],
         elapsed = 5\<rparr>
      else if peek h (peek h opt ''data'') ''access_token'' = Str ''2.00abc'' then
        \<lparr>status = 200, outcome = Inr (Ref (length h)),
         fresh = [[(''id'', Num 123456), (''screen_name'', Str ''bottle'')]],
         elapsed = 7\<rparr>
      else
        \<lparr>status = 400, outcome = Inr (Ref (length h)),
         fresh = [[(''error'', Str ''invalid_access_token''), (''error_code'', Num 21332),
                   (''error_description'', Str ''invalid'')]],
         elapsed = 7\<rparr>)"

text \<open>An adapter that serialises: \<open>saveToken\<close> stores a copy of the token's properties, and
  \<open>getToken\<close> answers a new copy of the stored ones.\<close>

definition copy_getToken :: "nat \<Rightarrow> jv \<Rightarrow> jv js" where
  "copy_getToken st uid w =
     (case prop_read (heap w) st (to_string uid) of
        Ref b \<Rightarrow> (Inr (Ref (length (heap w))), w\<lparr>heap := heap w @ [props (heap w) b]\<rparr>)
      | v \<Rightarrow> (Inr v, w))"

definition copy_saveToken :: "nat \<Rightarrow> jv \<Rightarrow> jv \<Rightarrow> unit js" where
  "copy_saveToken st uid token w =
     (case token of
        Ref b \<Rightarrow>
          (Inr (), w\<lparr>heap := prop_write st (to_string uid) (Ref (length (heap w)))
                               (heap w @ [props (heap w) b])\<rparr>)
      | v \<Rightarrow> (Inr (), w\<lparr>heap := prop_write st (to_string uid) v (heap w)\<rparr>))"

definition copying_client :: oauth where
  "copying_client =
     fst (OAuth (Str ''id'') (Str ''secret'') (Str ''http://cb'')
            (Some (copy_getToken 0)) (Some (copy_saveToken 0)) empty_world)"

section \<open>The object store\<close>

lemma length_prop_write [simp]: "length (prop_write a k v h) = length h"
  by (simp add: prop_write_def)

lemma props_prop_write:
  "props (prop_write a k v h) b =
     (if a = b \<and> a < length h then AList.update k v (props h a) else props h b)"
  by (simp add: props_def prop_write_def)

lemma prop_read_prop_write:
  "prop_read (prop_write a k v h) b k' =
     (if a = b \<and> a < length h \<and> k = k' then v else prop_read h b k')"
  by (simp add: prop_read_def props_prop_write update_conv')

lemma props_append [simp]: "a < length h \<Longrightarrow> props (h @ xs) a = props h a"
  by (simp add: props_def nth_append)

lemma props_append_new [simp]: "props (h @ [ob]) (length h) = ob"
  by (simp add: props_def)

lemma prop_read_append [simp]: "a < length h \<Longrightarrow> prop_read (h @ xs) a k = prop_read h a k"
  by (simp add: prop_read_def)

lemma prop_write_append:
  "a < length h \<Longrightarrow> prop_write a k v (h @ xs) = prop_write a k v h @ xs"
  by (simp add: prop_write_def list_update_append nth_append)

lemma prop_write_new:
  "prop_write (length h) k v (h @ [ob]) = h @ [AList.update k v ob]"
  by (simp add: prop_write_def)

lemma map_of_copy_props:
  "map_of (copy_props h s ks ob) k =
     (if k \<in> set ks then Some (prop_read h s k) else map_of ob k)"
  unfolding copy_props_def
  by (induction ks arbitrary: ob) (auto simp: update_conv')

text \<open>Copying into a new object, the last of the store, from an older one.\<close>

lemma fold_write_new:
  assumes "s < length h"
  shows "fold (\<lambda>k h'. prop_write (length h) k (prop_read h' s k) h') ks (h @ [ob]) =
           h @ [copy_props h s ks ob]"
  using assms
proof (induction ks arbitrary: ob)
  case Nil
  then show ?case by (simp add: copy_props_def)
next
  case (Cons k ks)
  then show ?case by (simp add: prop_write_new copy_props_def)
qed

lemma fold_merge_key_new:
  assumes "s < length h" and "''headers'' \<notin> set ks"
  shows "fold (merge_key (length h) s) ks (h @ [ob]) = h @ [copy_props h s ks ob]"
  using assms
proof (induction ks arbitrary: ob)
  case Nil
  then show ?case by (simp add: copy_props_def)
next
  case (Cons k ks)
  from Cons.prems have k: "k \<noteq> ''headers''" and ks: "''headers'' \<notin> set ks" by auto
  have "merge_key (length h) s k (h @ [ob]) = h @ [AList.update k (prop_read h s k) ob]"
    using k Cons.prems(1) by (simp add: merge_key_def prop_write_new)
  then show ?case
    using Cons.IH [OF Cons.prems(1) ks] by (simp add: copy_props_def)
qed


lemma props_out_of_range: "length h \<le> a \<Longrightarrow> props h a = []"
  by (simp add: props_def)

lemma extend_into_new:
  "extend (Ref (length h)) dflt (h @ [[]]) = h @ [default_copy dflt h]"
proof (cases dflt)
  case (Ref d)
  consider "d < length h" | "d = length h" | "length h < d" by linarith
  then show ?thesis
  proof cases
    case 1
    then show ?thesis
      using fold_write_new [of d h "map fst (props h d)" "[]"]
      by (simp add: extend_def default_copy_def Ref)
  next
    case 2
    then show ?thesis
      by (simp add: extend_def default_copy_def Ref props_out_of_range copy_props_def)
  next
    case 3
    then show ?thesis
      by (simp add: extend_def default_copy_def Ref props_out_of_range copy_props_def)
  qed
qed (simp_all add: extend_def default_copy_def)

lemma build_options_plain:
  assumes "s < length h" and "''headers'' \<notin> fst ` set (props h s)"
  shows "build_options dflt (Ref s) h = (length h, h @ [merged_options dflt h s])"
  using assms fold_merge_key_new [of s h "map fst (props h s)" "default_copy dflt h"]
  by (simp add: build_options_def alloc_def extend_into_new merged_options_def)

lemma prop_read_absent: "k \<notin> fst ` set (props h a) \<Longrightarrow> prop_read h a k = Undefined"
proof -
  assume "k \<notin> fst ` set (props h a)"
  then have "map_of (props h a) k = None" by (simp add: map_of_eq_None_iff)
  then show ?thesis by (simp add: prop_read_def)
qed

lemma prop_read_new [simp]:
  "prop_read (h @ [ob]) (length h) k = (case map_of ob k of None \<Rightarrow> Undefined | Some v \<Rightarrow> v)"
  by (simp add: prop_read_def)

lemma lookup_default_copy:
  "(case map_of (default_copy dflt h) k of None \<Rightarrow> Undefined | Some v \<Rightarrow> v) =
     (case dflt of Ref d \<Rightarrow> prop_read h d k | _ \<Rightarrow> Undefined)"
proof (cases dflt)
  case (Ref d)
  show ?thesis
  proof (cases "k \<in> fst ` set (props h d)")
    case True
    then show ?thesis by (simp add: Ref default_copy_def map_of_copy_props)
  next
    case False
    then show ?thesis by (simp add: Ref default_copy_def map_of_copy_props prop_read_absent)
  qed
qed (simp_all add: default_copy_def)

lemma prop_read_merged_options:
  "prop_read (h @ [merged_options dflt h s]) (length h) k =
     (if k \<in> fst ` set (props h s) then prop_read h s k
      else case dflt of Ref d \<Rightarrow> prop_read h d k | _ \<Rightarrow> Undefined)"
  using lookup_default_copy [of dflt h k]
  by (simp add: merged_options_def map_of_copy_props)

lemma example_client_simps:
  "example_client = \<lparr>clientId = Str ''id'', clientSecret = Str ''secret'', redirectUri = Str ''http://cb'',
      store = 0, getToken = default_getToken 0, saveToken = default_saveToken 0, defaults = Ref 1\<rparr>"
  "example_world = \<lparr>heap = [[], []], clock = 1000, sent = []\<rparr>"
  by (simp_all add: example_client_def example_world_def OAuth_def alloc_def empty_world_def)

section \<open>Merging the options\<close>

lemma prop_read_lookup: "prop_read h a k = lookup (props h a) k"
  by (simp add: prop_read_def lookup_def)

lemma lookup_update: "lookup (AList.update k v ob) k' = (if k = k' then v else lookup ob k')"
  by (simp add: lookup_def update_conv')

lemma lookup_copy_props:
  "lookup (copy_props h s ks ob) k = (if k \<in> set ks then prop_read h s k else lookup ob k)"
  by (simp add: lookup_def map_of_copy_props)

lemma lookup_default_copy':
  "lookup (default_copy (Ref d) h) k = prop_read h d k"
  using lookup_default_copy [of "Ref d" h k] by (simp add: lookup_def)

lemma copy_props_cong:
  "(\<And>k. k \<in> set ks \<Longrightarrow> prop_read g s k = prop_read h s k) \<Longrightarrow>
   copy_props g s ks ob = copy_props h s ks ob"
  unfolding copy_props_def
  by (induction ks arbitrary: ob) simp_all

lemma props_update_nth:
  "a < length g \<Longrightarrow> props (g[a := ob]) b = (if a = b then ob else props g b)"
  by (simp add: props_def)

lemma fold_merge_key_at:
  assumes "opt < length g" and "s \<noteq> opt" and "''headers'' \<notin> set ks"
  shows "fold (merge_key opt s) ks g = g[opt := copy_props g s ks (g ! opt)]"
  using assms
proof (induction ks arbitrary: g)
  case Nil
  then show ?case by (simp add: copy_props_def)
next
  case (Cons k ks)
  from Cons.prems have k: "k \<noteq> ''headers''" and ks: "''headers'' \<notin> set ks" by auto
  let ?g = "g[opt := AList.update k (prop_read g s k) (g ! opt)]"
  have step: "merge_key opt s k g = ?g"
    using k Cons.prems(1) by (simp add: merge_key_def prop_write_def)
  have same: "copy_props ?g s ks ob = copy_props g s ks ob" for ob
    using Cons.prems(1,2) by (intro copy_props_cong) (simp add: prop_read_def props_update_nth)
  have ih: "fold (merge_key opt s) ks ?g = ?g[opt := copy_props ?g s ks (?g ! opt)]"
    using Cons.prems(1,2) ks by (intro Cons.IH) simp_all
  have unroll: "copy_props g s (k # ks) (g ! opt) =
                copy_props g s ks (AList.update k (prop_read g s k) (g ! opt))"
    by (simp add: copy_props_def)
  show ?case
    using Cons.prems(1) by (simp add: step ih same unroll)
qed

text \<open>Writing the properties of one object into another, older than the rest of the store.\<close>

lemma fold_write_old:
  assumes "d < length h"
  shows "length (fold (\<lambda>k h'. prop_write d k (prop_read h' s k) h') ks h) = length h \<and>
         (\<forall>b. b \<noteq> d \<longrightarrow> props (fold (\<lambda>k h'. prop_write d k (prop_read h' s k) h') ks h) b = props h b) \<and>
         (\<forall>j. prop_read (fold (\<lambda>k h'. prop_write d k (prop_read h' s k) h') ks h) d j =
               (if j \<in> set ks then prop_read h s j else prop_read h d j))"
  using assms
proof (induction ks arbitrary: h)
  case Nil
  then show ?case by simp
next
  case (Cons k ks)
  let ?h = "prop_write d k (prop_read h s k) h"
  have len: "d < length ?h" using Cons.prems by simp
  have rs: "prop_read ?h s j = prop_read h s j" for j
    by (simp add: prop_read_prop_write)
  have rd: "prop_read ?h d j = (if k = j then prop_read h s k else prop_read h d j)" for j
    using Cons.prems by (simp add: prop_read_prop_write)
  have pb: "b \<noteq> d \<Longrightarrow> props ?h b = props h b" for b
    by (simp add: props_prop_write)
  show ?case
    using Cons.IH [OF len] by (auto simp: rs rd pb)
qed

lemma fold_write_old_append:
  assumes "d < length h" and "s < length h"
  shows "fold (\<lambda>k h'. prop_write d k (prop_read h' s k) h') ks (h @ xs) =
         fold (\<lambda>k h'. prop_write d k (prop_read h' s k) h') ks h @ xs"
  using assms
proof (induction ks arbitrary: h)
  case Nil
  then show ?case by simp
next
  case (Cons k ks)
  then show ?case by (simp add: prop_write_append)
qed


lemma lookup_Ref_update_triv:
  "lookup ob k = Ref a \<Longrightarrow> AList.update k (Ref a) ob = ob"
  by (intro update_triv) (simp add: lookup_def split: option.splits)

lemma extend_old_append:
  assumes "dh < length h" and "hs < length h"
  shows "extend (Ref dh) (Ref hs) (h @ xs) = extend (Ref dh) (Ref hs) h @ xs"
  using assms by (simp add: extend_def fold_write_old_append)

lemma merge_headers_skip:
  assumes "s < length h" and "\<not> truthy (prop_read h s ''headers'')"
  shows "merge_key (length h) s ''headers'' (h @ [ob]) = h @ [ob]"
  using assms by (simp add: merge_key_def)

lemma merge_headers_shared:
  assumes "s < length h" and "prop_read h s ''headers'' = Ref hs" and "hs < length h"
    and "lookup ob ''headers'' = Ref dh" and "dh < length h"
  shows "merge_key (length h) s ''headers'' (h @ [ob]) = extend (Ref dh) (Ref hs) h @ [ob]"
proof -
  have hv: "prop_read (h @ [ob]) (length h) ''headers'' = Ref dh"
    using assms(4) by (simp add: lookup_def)
  have w: "prop_write (length h) ''headers'' (Ref dh) (h @ [ob]) = h @ [ob]"
    using assms(4) by (simp add: prop_write_new lookup_Ref_update_triv)
  show ?thesis
    using assms(1,2,3,5) by (simp add: merge_key_def hv w extend_old_append del: prop_read_new)
qed

lemma merge_headers_fresh:
  assumes "s < length h" and "prop_read h s ''headers'' = Ref hs" and "hs < length h"
    and "\<not> truthy (lookup ob ''headers'')"
  shows "merge_key (length h) s ''headers'' (h @ [ob]) =
           h @ [AList.update ''headers'' (Ref (Suc (length h))) ob,
                copy_props h hs (map fst (props h hs)) []]"
proof -
  let ?ob = "AList.update ''headers'' (Ref (Suc (length h))) ob"
  have hv: "\<not> truthy (prop_read (h @ [ob]) (length h) ''headers'')"
    using assms(4) by (simp add: lookup_def)
  have w: "prop_write (length h) ''headers'' (Ref (Suc (length h))) ((h @ [ob]) @ [[]]) =
             (h @ [?ob]) @ [[]]"
    using prop_write_append [of "length h" "h @ [ob]" "''headers''" "Ref (Suc (length h))" "[[]]"]
    by (simp add: prop_write_new)
  have r1: "prop_read ((h @ [?ob]) @ [[]]) (length h) ''headers'' = Ref (Suc (length h))"
    using prop_read_append [of "length h" "h @ [?ob]" "[[]]" "''headers''"]
    by (simp add: update_conv')
  have r2: "prop_read ((h @ [?ob]) @ [[]]) s ''headers'' = Ref hs"
    using assms(1,2) prop_read_append [of s h "[?ob] @ [[]]" "''headers''"] by simp
  have p: "props ((h @ [?ob]) @ [[]]) hs = props h hs"
    using assms(3) props_append [of hs h "[?ob] @ [[]]"] by simp
  have e: "extend (Ref (Suc (length h))) (Ref hs) ((h @ [?ob]) @ [[]]) =
             (h @ [?ob]) @ [copy_props (h @ [?ob]) hs (map fst (props h hs)) []]"
    using assms(3) fold_write_new [of hs "h @ [?ob]" "map fst (props h hs)" "[]"]
    by (simp add: extend_def p del: append_assoc)
  have c: "copy_props (h @ [?ob]) hs (map fst (props h hs)) [] =
             copy_props h hs (map fst (props h hs)) []"
    using assms(3) by (intro copy_props_cong) simp
  show ?thesis
    unfolding merge_key_def using hv assms(1,2)
    by (simp add: alloc_def w r1 r2 e c del: prop_read_new append_assoc)
qed


lemma build_options_fold:
  assumes "s < length h"
  shows "build_options dflt (Ref s) h =
           (length h, fold (merge_key (length h) s) (map fst (props h s)) (h @ [default_copy dflt h]))"
  using assms by (simp add: build_options_def alloc_def extend_into_new)

lemma lookup_copy_default:
  assumes "''headers'' \<notin> set ks1"
  shows "lookup (copy_props h s ks1 (default_copy (Ref d) h)) ''headers'' = prop_read h d ''headers''"
  using assms by (simp add: lookup_copy_props lookup_default_copy')

lemma build_options_skip_headers:
  assumes "s < length h" and "map fst (props h s) = ks1 @ ''headers'' # ks2"
    and "''headers'' \<notin> set ks1" and "''headers'' \<notin> set ks2"
    and "\<not> truthy (prop_read h s ''headers'')"
  shows "build_options dflt (Ref s) h =
           (length h, h @ [copy_props h s ks2 (copy_props h s ks1 (default_copy dflt h))])"
  using assms
  by (simp add: build_options_fold fold_merge_key_new merge_headers_skip)

lemma build_options_shared_headers:
  assumes "s < length h" and "map fst (props h s) = ks1 @ ''headers'' # ks2"
    and "''headers'' \<notin> set ks1" and "''headers'' \<notin> set ks2"
    and "prop_read h s ''headers'' = Ref hs" and "hs < length h"
    and "prop_read h d ''headers'' = Ref dh" and "dh < length h" and "dh \<noteq> s"
  shows "build_options (Ref d) (Ref s) h =
           (length h, extend (Ref dh) (Ref hs) h @
                        [copy_props h s ks2 (copy_props h s ks1 (default_copy (Ref d) h))])"
proof -
  let ?ob = "copy_props h s ks1 (default_copy (Ref d) h)"
  let ?E = "extend (Ref dh) (Ref hs) h"
  have E: "length ?E = length h" "\<And>b. b \<noteq> dh \<Longrightarrow> props ?E b = props h b"
    using fold_write_old [OF assms(8), of hs "map fst (props h hs)"] by (simp_all add: extend_def)
  have step: "merge_key (length h) s ''headers'' (h @ [?ob]) = ?E @ [?ob]"
    using assms by (intro merge_headers_shared) (simp_all add: lookup_copy_default)
  have "fold (merge_key (length ?E) s) ks2 (?E @ [?ob]) = ?E @ [copy_props ?E s ks2 ?ob]"
    using assms(1,4) E(1) by (intro fold_merge_key_new) simp_all
  moreover have "copy_props ?E s ks2 ?ob = copy_props h s ks2 ?ob"
    using assms(9) E(2) [of s] by (intro copy_props_cong) (simp add: prop_read_def)
  ultimately show ?thesis
    using assms(1,2,3) by (simp add: build_options_fold fold_merge_key_new step E(1))
qed

lemma build_options_fresh_headers:
  assumes "s < length h" and "map fst (props h s) = ks1 @ ''headers'' # ks2"
    and "''headers'' \<notin> set ks1" and "''headers'' \<notin> set ks2"
    and "prop_read h s ''headers'' = Ref hs" and "hs < length h"
    and "\<not> truthy (prop_read h d ''headers'')"
  shows "build_options (Ref d) (Ref s) h =
           (length h, h @ [copy_props h s ks2 (AList.update ''headers'' (Ref (Suc (length h)))
                                             (copy_props h s ks1 (default_copy (Ref d) h))),
                           copy_props h hs (map fst (props h hs)) []])"
proof -
  let ?ob = "copy_props h s ks1 (default_copy (Ref d) h)"
  let ?ob' = "AList.update ''headers'' (Ref (Suc (length h))) ?ob"
  let ?e = "copy_props h hs (map fst (props h hs)) []"
  let ?g = "h @ [?ob', ?e]"
  have step: "merge_key (length h) s ''headers'' (h @ [?ob]) = ?g"
    using assms by (intro merge_headers_fresh) (simp_all add: lookup_copy_default)
  have "fold (merge_key (length h) s) ks2 ?g = ?g[length h := copy_props ?g s ks2 (?g ! length h)]"
    using assms(1,4) by (intro fold_merge_key_at) simp_all
  moreover have "copy_props ?g s ks2 ob = copy_props h s ks2 ob" for ob
    using assms(1) by (intro copy_props_cong) simp
  ultimately show ?thesis
    using assms(1,2,3) by (simp add: build_options_fold fold_merge_key_new step)
qed


lemma object_or_falsy_cases:
  assumes "object_or_falsy h v"
  obtains (falsy) "\<not> truthy v" | (object) a where "v = Ref a" and "a < length h"
  using assms by (cases v) (auto simp: object_or_falsy_def)

lemma prop_read_last: "prop_read (h @ [ob]) (length h) k = lookup ob k"
  by (simp add: lookup_def)

lemma prop_read_last2:
  "prop_read (h @ [ob, ob']) (length h) k = lookup ob k"
  "prop_read (h @ [ob, ob']) (Suc (length h)) k = lookup ob' k"
  using prop_read_append [of "length h" "h @ [ob]" "[ob']" k] prop_read_last [of "h @ [ob]" ob' k]
  by (simp_all add: lookup_def)

lemma keys_split:
  assumes "map fst (props h s) = ks1 @ ''headers'' # ks2" and "k \<noteq> ''headers''"
  shows "k \<in> fst ` set (props h s) \<longleftrightarrow> k \<in> set ks1 \<or> k \<in> set ks2"
proof -
  have "fst ` set (props h s) = set (map fst (props h s))" by simp
  then show ?thesis using assms by (simp del: set_map)
qed


lemma build_options_reads:
  assumes d: "d < length h" and s: "s < length h" and dist: "distinct (map fst (props h s))"
    and sh: "object_or_falsy h (prop_read h s ''headers'')"
    and dh: "object_or_falsy h (prop_read h d ''headers'')"
    and na: "prop_read h d ''headers'' \<noteq> Ref s"
    and bo: "build_options (Ref d) (Ref s) h = (opt, H)"
  shows "opt = length h \<and>
    (\<forall>k. k \<noteq> ''headers'' \<longrightarrow>
        prop_read H opt k = (if k \<in> fst ` set (props h s) then prop_read h s k else prop_read h d k)) \<and>
    (\<not> truthy (prop_read h s ''headers'') \<longrightarrow> prop_read H opt ''headers'' = prop_read h d ''headers'') \<and>
    (\<forall>hs. prop_read h s ''headers'' = Ref hs \<longrightarrow>
        (\<exists>x. prop_read H opt ''headers'' = Ref x \<and>
             (\<forall>j. prop_read H x j =
                  (if j \<in> fst ` set (props h hs) then prop_read h hs j
                   else case prop_read h d ''headers'' of Ref a \<Rightarrow> prop_read h a j | _ \<Rightarrow> Undefined))))"
proof (cases "''headers'' \<in> set (map fst (props h s))")
  case False
  then have nk: "''headers'' \<notin> fst ` set (props h s)" by simp
  have "(opt, H) = (length h, h @ [merged_options (Ref d) h s])"
    unfolding bo [symmetric] by (rule build_options_plain [OF s nk])
  then have H: "opt = length h" "H = h @ [merged_options (Ref d) h s]"
    by simp_all
  have "prop_read h s ''headers'' = Undefined"
    using nk by (rule prop_read_absent)
  then show ?thesis
    using nk by (simp add: H prop_read_merged_options del: prop_read_new)
next
  case True
  then obtain ks1 ks2 where ks: "map fst (props h s) = ks1 @ ''headers'' # ks2"
    by (auto dest: split_list)
  have n1: "''headers'' \<notin> set ks1" and n2: "''headers'' \<notin> set ks2"
    using dist by (simp_all add: ks)
  let ?ob = "copy_props h s ks1 (default_copy (Ref d) h)"
  have other: "lookup (copy_props h s ks2 ?ob) k =
                 (if k \<in> fst ` set (props h s) then prop_read h s k else prop_read h d k)"
    if "k \<noteq> ''headers''" for k
    using keys_split [OF ks that] by (simp add: lookup_copy_props lookup_default_copy')
  from sh show ?thesis
  proof (cases rule: object_or_falsy_cases)
    case falsy
    have "(opt, H) = (length h, h @ [copy_props h s ks2 ?ob])"
      unfolding bo [symmetric] by (rule build_options_skip_headers [OF s ks n1 n2 falsy])
    then have H: "opt = length h" "H = h @ [copy_props h s ks2 ?ob]"
      by simp_all
    have "lookup (copy_props h s ks2 ?ob) ''headers'' = prop_read h d ''headers''"
      using n1 n2 by (simp add: lookup_copy_props lookup_default_copy')
    then show ?thesis
      using falsy by (auto simp: H prop_read_last other simp del: prop_read_new)
  next
    case (object hs)
    note hs = this
    from dh show ?thesis
    proof (cases rule: object_or_falsy_cases)
      case falsy
      let ?ob' = "AList.update ''headers'' (Ref (Suc (length h))) ?ob"
      let ?e = "copy_props h hs (map fst (props h hs)) []"
      have "(opt, H) = (length h, h @ [copy_props h s ks2 ?ob', ?e])"
        unfolding bo [symmetric] by (rule build_options_fresh_headers [OF s ks n1 n2 hs falsy])
      then have H: "opt = length h" "H = h @ [copy_props h s ks2 ?ob', ?e]"
        by simp_all
      have o: "lookup (copy_props h s ks2 ?ob') k =
                 (if k \<in> fst ` set (props h s) then prop_read h s k else prop_read h d k)"
        if "k \<noteq> ''headers''" for k
        using that keys_split [OF ks that] by (simp add: lookup_copy_props lookup_update lookup_default_copy')
      have hd: "lookup (copy_props h s ks2 ?ob') ''headers'' = Ref (Suc (length h))"
        using n2 by (simp add: lookup_copy_props lookup_update)
      have e: "lookup ?e j = (if j \<in> fst ` set (props h hs) then prop_read h hs j else Undefined)" for j
        by (simp add: lookup_copy_props) (simp add: lookup_def)
      have nd: "(case prop_read h d ''headers'' of Ref a \<Rightarrow> prop_read h a j | _ \<Rightarrow> Undefined) = Undefined" for j
        using falsy by (cases "prop_read h d ''headers''") simp_all
      show ?thesis
        using hs(1) by (simp add: H prop_read_last2 o hd e nd del: prop_read_new)
    next
      case (object a)
      note a = this
      have as: "a \<noteq> s" using na a(1) by auto
      let ?E = "extend (Ref a) (Ref hs) h"
      have E: "length ?E = length h"
        "\<And>j. prop_read ?E a j = (if j \<in> set (map fst (props h hs)) then prop_read h hs j else prop_read h a j)"
        using fold_write_old [OF a(2), of hs "map fst (props h hs)"] by (simp_all add: extend_def)
      have "(opt, H) = (length h, ?E @ [copy_props h s ks2 ?ob])"
        unfolding bo [symmetric] by (rule build_options_shared_headers [OF s ks n1 n2 hs a as])
      then have H: "opt = length h" "H = ?E @ [copy_props h s ks2 ?ob]"
        by simp_all
      have r: "prop_read H opt k = lookup (copy_props h s ks2 ?ob) k" for k
        using prop_read_last [of ?E "copy_props h s ks2 ?ob" k] by (simp add: H E(1))
      have ra: "prop_read H a j = prop_read ?E a j" for j
        using a(2) by (simp add: H E(1))
      have hd: "lookup (copy_props h s ks2 ?ob) ''headers'' = Ref a"
        using n1 n2 a(1) by (simp add: lookup_copy_props lookup_default_copy')
      show ?thesis
        using hs(1) a(1) by (simp add: H(1) r [unfolded H(1)] ra other hd E(2))
    qed
  qed
qed


lemma request_world:
  assumes "build_options (defaults c) opts (heap w) = (opt, H)"
  shows "snd (request net c url opts w) =
           w\<lparr>heap := H @ fresh (net (length (sent w)) url (Ref opt) H),
             clock := clock w + int (elapsed (net (length (sent w)) url (Ref opt) H)),
             sent := sent w @ [(url, Ref opt)]\<rparr>"
  using assms by (simp add: request_def Let_def split: sum.splits)

section \<open>Running the operations\<close>

lemmas js_defs = js_bind_def js_return_def js_throw_def js_get_def js_set_def js_new_def now_def

lemma request_plain:
  assumes "s < length (heap w)" and "''headers'' \<notin> fst ` set (props (heap w) s)"
  shows "request net c url (Ref s) w =
     (let h = heap w @ [merged_options (defaults c) (heap w) s];
          r = net (length (sent w)) url (Ref (length (heap w))) h;
          w' = w\<lparr>heap := h @ fresh r, clock := clock w + int (elapsed r),
                 sent := sent w @ [(url, Ref (length (heap w)))]\<rparr>
      in case outcome r of
           Inl err \<Rightarrow> (Inl (err\<lparr>ename := ''WeiboAPI'' @ ename err\<rparr>), w')
         | Inr body \<Rightarrow>
             (case get_prop (heap w') body ''error'' of
                Inl e \<Rightarrow> (Inl e, w')
              | Inr er \<Rightarrow>
                  if truthy er then
                    (case get_prop (heap w') body ''error_description'' of
                       Inl e \<Rightarrow> (Inl e, w')
                     | Inr descr \<Rightarrow>
                         (case get_prop (heap w') body ''error_code'' of
                            Inl e \<Rightarrow> (Inl e, w')
                          | Inr cd \<Rightarrow>
                              (Inl ((new_Error descr)\<lparr>ename := ''WeiboAPIError'', ecode := cd\<rparr>), w')))
                  else (Inr body, w')))"
  using assms by (simp add: request_def build_options_plain Let_def)

lemma processToken_object:
  "processToken c (Ref b) w =
     (case saveToken c (prop_read (prop_write b ''create_at'' (Num (clock w)) (heap w)) b ''uid'') (Ref b)
             (w\<lparr>heap := prop_write b ''create_at'' (Num (clock w)) (heap w)\<rparr>) of
        (Inl e, w') \<Rightarrow> (Inl e, w')
      | (Inr u, w') \<Rightarrow> (Inr (AccessToken (Ref b)), w'))"
  by (simp add: processToken_def js_defs split: prod.splits sum.splits)

lemma request_plain_world:
  assumes "s < length (heap w)" and "''headers'' \<notin> fst ` set (props (heap w) s)"
  shows "snd (request net c url (Ref s) w) =
     (let h = heap w @ [merged_options (defaults c) (heap w) s];
          r = net (length (sent w)) url (Ref (length (heap w))) h
      in w\<lparr>heap := h @ fresh r, clock := clock w + int (elapsed r),
            sent := sent w @ [(url, Ref (length (heap w)))]\<rparr>)"
  using assms by (simp add: request_plain Let_def split: sum.splits)

section \<open>Two runs that differ in the access token of the options\<close>

lemma reaches_referred:
  "reaches h v c \<Longrightarrow> unref c h \<Longrightarrow> v \<noteq> Ref c \<Longrightarrow> False"
proof (induction rule: reaches.induct)
  case (here b)
  then show ?case by simp
next
  case (step b k c)
  from step.prems have "prop_read h b k \<noteq> Ref c" by (simp add: unref_def)
  then show ?case using step.IH step.prems(1) by simp
qed

lemma unref_not_reaches:
  assumes "unref a h" and "v \<noteq> Ref a"
  shows "\<not> reaches h v a"
  using assms reaches_referred [of h v a] by blast

lemma unref_read:
  assumes "unref a h" and "b \<noteq> a \<or> k \<noteq> ''access_token''"
  shows "prop_read h b k \<noteq> Ref a"
  using assms by (simp add: unref_def)

lemma unref_get_prop:
  assumes "unref a h" and "v \<noteq> Ref a \<or> k \<noteq> ''access_token''"
  shows "get_prop h v k \<noteq> Inr (Ref a)"
  using assms by (cases v) (auto simp: unref_def)

lemma prop_read_append_cases:
  "prop_read (h @ xs) b k =
     (if b < length h then prop_read h b k
      else if b < length h + length xs then lookup (xs ! (b - length h)) k
      else Undefined)"
  by (simp add: prop_read_def props_def lookup_def nth_append)

lemma unref_append:
  assumes "unref a h" and "plain_objs a xs"
  shows "unref a (h @ xs)"
  using assms
  by (auto simp: unref_def plain_objs_def prop_read_append_cases)

lemma unref_prop_write:
  assumes "unref a h" and "x \<noteq> Ref a"
  shows "unref a (prop_write b k x h)"
  using assms by (auto simp: unref_def prop_read_prop_write)

lemma sim_prop_read:
  assumes "sim a h h'" and "b \<noteq> a \<or> k \<noteq> ''access_token''"
  shows "prop_read h' b k = prop_read h b k"
  using assms by (cases "b = a") (auto simp: sim_def prop_read_def)

lemma sim_get_prop:
  assumes "sim a h h'" and "v \<noteq> Ref a \<or> k \<noteq> ''access_token''"
  shows "get_prop h' v k = get_prop h v k"
  using assms by (cases v) (auto simp: sim_prop_read)

lemma sim_append: "sim a h h' \<Longrightarrow> sim a (h @ xs) (h' @ xs)"
  by (auto simp: sim_def props_def prop_read_def nth_append)

lemma sim_prop_write:
  assumes "sim a h h'" and "b \<noteq> a \<or> k \<noteq> ''access_token''"
  shows "sim a (prop_write b k v h) (prop_write b k v h')"
  using assms
  by (auto simp: sim_def props_prop_write prop_read_prop_write)

lemma sim_world_length: "sim_world a w w' \<Longrightarrow> a < length (heap w)"
  by (simp add: sim_world_def sim_def)

lemma agree_return: "sim_world a w w' \<Longrightarrow> agree a (js_return x) w w'"
  by (simp add: agree_def js_return_def)

lemma agree_throw: "sim_world a w w' \<Longrightarrow> agree a (js_throw e) w w'"
  by (simp add: agree_def js_throw_def)

lemma agree_now: "sim_world a w w' \<Longrightarrow> agree a now w w'"
  by (simp add: agree_def now_def sim_world_def)

lemma agree_js_new:
  assumes "sim_world a w w'" and "plain_objs a [ob]"
  shows "agree a (js_new ob) w w'"
  using assms unref_append [of a "heap w" "[ob]"] sim_append [of a "heap w" "heap w'" "[ob]"]
  by (simp add: agree_def js_new_def alloc_def sim_world_def) (simp add: sim_def)

lemma agree_js_get:
  assumes "sim_world a w w'" and "v \<noteq> Ref a \<or> k \<noteq> ''access_token''"
  shows "agree a (js_get v k) w w'"
  using assms sim_get_prop [of a "heap w" "heap w'" v k]
  by (simp add: agree_def js_get_def sim_world_def split: sum.splits)

lemma js_get_unref:
  assumes "js_get v k w = (Inr x, u)" and "sim_world a u u'"
    and "v \<noteq> Ref a \<or> k \<noteq> ''access_token''"
  shows "x \<noteq> Ref a"
  using assms unref_get_prop [of a "heap w" v k]
  by (auto simp: js_get_def sim_world_def split: sum.splits)

lemma js_new_fresh:
  assumes "js_new ob w = (Inr x, v)" and "a < length (heap w)"
  shows "x \<noteq> Ref a"
  using assms by (auto simp: js_new_def alloc_def)

lemma agree_js_set:
  assumes "sim_world a w w'" and "v \<noteq> Ref a \<or> k \<noteq> ''access_token''" and "x \<noteq> Ref a"
  shows "agree a (js_set v k x) w w'"
proof (cases v)
  case (Ref b)
  then show ?thesis
    using assms sim_prop_write [of a "heap w" "heap w'" b k x] unref_prop_write [of a "heap w" x b k]
    by (auto simp: agree_def js_set_def sim_world_def)
qed (use assms in \<open>simp_all add: agree_def js_set_def\<close>)

lemma agree_bind:
  assumes "agree a m w w'"
    and "\<And>x v v'. m w = (Inr x, v) \<Longrightarrow> m w' = (Inr x, v') \<Longrightarrow> sim_world a v v' \<Longrightarrow> agree a (f x) v v'"
  shows "agree a (js_bind m f) w w'"
proof (cases "m w")
  case (Pair r v)
  obtain r' v' where m': "m w' = (r', v')" by (cases "m w'")
  from assms(1) Pair m' have r: "r' = r" and s: "sim_world a v v'"
    by (simp_all add: agree_def)
  show ?thesis
  proof (cases r)
    case (Inl e)
    then show ?thesis using Pair m' r s by (simp add: agree_def js_bind_def)
  next
    case (Inr x)
    then have "agree a (f x) v v'" using assms(2) Pair m' r s by simp
    then show ?thesis using Pair m' r Inr by (simp add: agree_def js_bind_def)
  qed
qed

lemma agree_isValid:
  assumes "sim_world a w w'" and "v \<noteq> Ref a"
  shows "agree a (js_isValid (AccessToken v)) w w'"
proof -
  have g: "get_prop (heap w') v k = get_prop (heap w) v k" for k
    using assms by (intro sim_get_prop [of a]) (simp_all add: sim_world_def)
  have c: "clock w' = clock w"
    using assms(1) by (simp add: sim_world_def)
  have "isValid (AccessToken v) (clock w') (heap w') = isValid (AccessToken v) (clock w) (heap w)"
    by (simp only: isValid_def access_token.sel g c)
  then show ?thesis
    using assms(1) by (simp add: agree_def js_isValid_def split: sum.splits)
qed


lemma request_plain_result:
  assumes "s < length (heap w)" and "''headers'' \<notin> fst ` set (props (heap w) s)"
  shows "fst (request net c url (Ref s) w) =
     (let h = heap w @ [merged_options (defaults c) (heap w) s];
          r = net (length (sent w)) url (Ref (length (heap w))) h
      in case outcome r of
           Inl err \<Rightarrow> Inl (err\<lparr>ename := ''WeiboAPI'' @ ename err\<rparr>)
         | Inr body \<Rightarrow> body_result (h @ fresh r) body)"
  using assms by (simp add: request_plain Let_def body_result_def split: sum.splits)

lemma body_result_sim: "sim a h h' \<Longrightarrow> body_result h' body = body_result h body"
proof -
  assume s: "sim a h h'"
  have g: "get_prop h' body k = get_prop h body k" if "k \<noteq> ''access_token''" for k
    using s that by (intro sim_get_prop [of a]) simp_all
  show ?thesis
    by (simp only: body_result_def g [of "''error''", simplified]
          g [of "''error_description''", simplified] g [of "''error_code''", simplified])
qed

lemma default_copy_sim:
  assumes "sim a h h'" and "dflt \<noteq> Ref a"
  shows "default_copy dflt h' = default_copy dflt h"
proof (cases dflt)
  case (Ref d)
  then have d: "d \<noteq> a" using assms(2) by simp
  then have p: "props h' d = props h d" using assms(1) by (simp add: sim_def)
  have "copy_props h' d ks [] = copy_props h d ks []" for ks
    using assms(1) d by (intro copy_props_cong) (simp add: sim_prop_read)
  then show ?thesis by (simp add: default_copy_def Ref p)
qed (simp_all add: default_copy_def)

lemma merged_options_sim:
  assumes "sim a h h'" and "dflt \<noteq> Ref a" and "s \<noteq> a"
  shows "merged_options dflt h' s = merged_options dflt h s"
proof -
  have p: "props h' s = props h s" using assms(1,3) by (simp add: sim_def)
  have "copy_props h' s ks ob = copy_props h s ks ob" for ks ob
    using assms(1,3) by (intro copy_props_cong) (simp add: sim_prop_read)
  then show ?thesis
    using assms(1,2) by (simp add: merged_options_def p default_copy_sim)
qed

lemma merged_options_plain:
  assumes "unref a h" and "dflt \<noteq> Ref a" and "s \<noteq> a"
  shows "plain_objs a [merged_options dflt h s]"
proof -
  have "lookup (merged_options dflt h s) k \<noteq> Ref a" for k
  proof -
    have "lookup (merged_options dflt h s) k =
            (if k \<in> fst ` set (props h s) then prop_read h s k
             else case dflt of Ref d \<Rightarrow> prop_read h d k | _ \<Rightarrow> Undefined)"
      using prop_read_merged_options [of h dflt s k] by (simp add: lookup_def)
    then show ?thesis
      using assms by (cases dflt) (auto simp: unref_def)
  qed
  then show ?thesis by (simp add: plain_objs_def)
qed

lemma agree_request:
  assumes sw: "sim_world a w w'" and s: "s < length (heap w)" and sa: "s \<noteq> a"
    and nh: "''headers'' \<notin> fst ` set (props (heap w) s)"
    and da: "defaults c \<noteq> Ref a" and bn: "blind_net a net"
  shows "agree a (request net c url (Ref s)) w w'"
proof -
  have sh: "sim a (heap w) (heap w')" and un: "unref a (heap w)"
    and cl: "clock w' = clock w" and se: "sent w' = sent w"
    using sw by (simp_all add: sim_world_def)
  have a: "a < length (heap w)" using sh by (simp add: sim_def)
  have len: "length (heap w') = length (heap w)" and p: "props (heap w') s = props (heap w) s"
    using sh sa by (simp_all add: sim_def)
  have s': "s < length (heap w')" and nh': "''headers'' \<notin> fst ` set (props (heap w') s)"
    using s nh by (simp_all add: len p)
  let ?ob = "merged_options (defaults c) (heap w) s"
  have ob: "merged_options (defaults c) (heap w') s = ?ob"
    using sh da sa by (rule merged_options_sim)
  have sg: "sim a (heap w @ [?ob]) (heap w' @ [?ob])"
    using sh by (rule sim_append)
  have ug: "unref a (heap w @ [?ob])"
    using un merged_options_plain [OF un da sa] by (rule unref_append)
  have nr: "\<not> reaches (heap w @ [?ob]) (Ref (length (heap w))) a"
    using ug a by (intro unref_not_reaches) simp_all
  let ?r = "net (length (sent w)) url (Ref (length (heap w))) (heap w @ [?ob])"
  have r: "net (length (sent w)) url (Ref (length (heap w))) (heap w' @ [?ob]) = ?r"
    using bn sg nr by (simp add: blind_net_def)
  have sf: "sim a ((heap w @ [?ob]) @ fresh ?r) ((heap w' @ [?ob]) @ fresh ?r)"
    using sg by (rule sim_append)
  have pf: "plain_objs a (fresh ?r)"
    using bn a by (simp add: blind_net_def)
  have uf: "unref a ((heap w @ [?ob]) @ fresh ?r)"
    using ug pf by (rule unref_append)
  have res: "fst (request net c url (Ref s) w') = fst (request net c url (Ref s) w)"
    using body_result_sim [OF sf]
    by (simp add: request_plain_result [OF s nh] request_plain_result [OF s' nh'] ob len se r
          Let_def split: sum.splits)
  have wld: "sim_world a (snd (request net c url (Ref s) w)) (snd (request net c url (Ref s) w'))"
    using sf uf
    by (simp add: request_plain_world [OF s nh] request_plain_world [OF s' nh'] ob len se r cl
          sim_world_def Let_def)
  show ?thesis
    using res wld by (simp add: agree_def)
qed

lemma request_fresh_body:
  assumes "a < length (heap w)" and "s < length (heap w)"
    and "''headers'' \<notin> fst ` set (props (heap w) s)" and "blind_net a net"
  shows "fst (request net c url (Ref s) w) \<noteq> Inr (Ref a)"
proof -
  let ?g = "heap w @ [merged_options (defaults c) (heap w) s]"
  have "outcome (net (length (sent w)) url (Ref (length (heap w))) ?g) \<noteq> Inr (Ref a)"
    using assms(1,4) by (simp add: blind_net_def)
  then show ?thesis
    by (auto simp: request_plain_result [OF assms(2,3)] Let_def body_result_def split: sum.splits if_splits)
qed


lemma agree_processToken:
  assumes sw: "sim_world a w w'" and ba: "blind_adapter a c" and dat: "dat \<noteq> Ref a"
  shows "agree a (processToken c dat) w w'"
  unfolding processToken_def
proof (rule agree_bind)
  show "agree a now w w'" using sw by (rule agree_now)
next
  fix t v v' assume sv: "sim_world a v v'"
  show "agree a (js_bind (js_set dat ''create_at'' (Num t)) (\<lambda>_.
          js_bind (js_get dat ''uid'') (\<lambda>uid.
          js_bind (saveToken c uid dat) (\<lambda>_. js_return (AccessToken dat))))) v v'"
  proof (rule agree_bind)
    show "agree a (js_set dat ''create_at'' (Num t)) v v'"
      using sv by (intro agree_js_set) simp_all
  next
    fix u u' assume su: "sim_world a u u'"
    show "agree a (js_bind (js_get dat ''uid'') (\<lambda>uid.
            js_bind (saveToken c uid dat) (\<lambda>_. js_return (AccessToken dat)))) u u'"
    proof (rule agree_bind)
      show "agree a (js_get dat ''uid'') u u'"
        using su by (intro agree_js_get) simp_all
    next
      fix uid t t'
      assume g: "js_get dat ''uid'' u = (Inr uid, t)" and st: "sim_world a t t'"
      have uid: "uid \<noteq> Ref a"
        using g st by (rule js_get_unref) simp
      show "agree a (js_bind (saveToken c uid dat) (\<lambda>_. js_return (AccessToken dat))) t t'"
      proof (rule agree_bind)
        show "agree a (saveToken c uid dat) t t'"
          using st ba uid dat by (simp add: blind_adapter_def)
      next
        fix r r' assume "sim_world a r r'"
        then show "agree a (js_return (AccessToken dat)) r r'" by (rule agree_return)
      qed
    qed
  qed
qed

text \<open>A request whose options are a new object with the properties \<open>args\<close>.\<close>

lemma agree_new_request:
  assumes sw: "sim_world a w w'" and nh: "''headers'' \<notin> fst ` set args"
    and pl: "plain_objs a [args]"
    and da: "defaults c \<noteq> Ref a" and bn: "blind_net a net"
    and k: "\<And>y v v'. y \<noteq> Ref a \<Longrightarrow> sim_world a v v' \<Longrightarrow> agree a (f y) v v'"
  shows "agree a (js_bind (js_new args) (\<lambda>r. js_bind (request net c url r) f)) w w'"
proof (rule agree_bind)
  show "agree a (js_new args) w w'" using sw pl by (rule agree_js_new)
next
  fix x v v' assume n: "js_new args w = (Inr x, v)" and sv: "sim_world a v v'"
  from n have x: "x = Ref (length (heap w))" and v: "heap v = heap w @ [args]"
    by (auto simp: js_new_def alloc_def)
  have a: "a < length (heap w)" using sw by (rule sim_world_length)
  show "agree a (js_bind (request net c url x) f) v v'"
    unfolding x
  proof (rule agree_bind)
    show "agree a (request net c url (Ref (length (heap w)))) v v'"
      using sv da bn nh a by (intro agree_request) (simp_all add: v)
  next
    fix y t t'
    assume r: "request net c url (Ref (length (heap w))) v = (Inr y, t)" and st: "sim_world a t t'"
    have "fst (request net c url (Ref (length (heap w))) v) \<noteq> Inr (Ref a)"
      using a nh bn by (intro request_fresh_body) (simp_all add: v)
    then have "y \<noteq> Ref a" using r by auto
    then show "agree a (f y) t t'" using st by (rule k)
  qed
qed

lemma plain_literal5:
  assumes "v1 \<noteq> Ref a" "v2 \<noteq> Ref a" "v3 \<noteq> Ref a" "v4 \<noteq> Ref a" "v5 \<noteq> Ref a"
  shows "plain_objs a [[(k1, v1), (k2, v2), (k3, v3), (k4, v4), (k5, v5)]]"
  using assms by (simp add: plain_objs_def lookup_def)

lemma plain_literal3:
  assumes "v1 \<noteq> Ref a" "v2 \<noteq> Ref a" "v3 \<noteq> Ref a"
  shows "plain_objs a [[(k1, v1), (k2, v2), (k3, v3)]]"
  using assms by (simp add: plain_objs_def lookup_def)

lemma plain_literal2:
  assumes "v1 \<noteq> Ref a" "v2 \<noteq> Ref a"
  shows "plain_objs a [[(k1, v1), (k2, v2)]]"
  using assms by (simp add: plain_objs_def lookup_def)

lemma agree_refreshAccessToken:
  assumes sw: "sim_world a w w'" and ap: "apart a c" and bn: "blind_net a net"
    and ba: "blind_adapter a c" and rt: "rt \<noteq> Ref a"
  shows "agree a (refreshAccessToken net c rt) w w'"
  unfolding refreshAccessToken_def
proof (rule agree_bind)
  show "agree a (js_new [(''client_id'', clientId c), (''client_secret'', clientSecret c),
          (''grant_type'', Str ''refresh_token''), (''redirect_uri'', redirectUri c),
          (''refresh_token'', rt)]) w w'"
    using sw ap rt by (intro agree_js_new plain_literal5) (simp_all add: apart_def)
next
  fix info v v'
  assume n: "js_new [(''client_id'', clientId c), (''client_secret'', clientSecret c),
          (''grant_type'', Str ''refresh_token''), (''redirect_uri'', redirectUri c),
          (''refresh_token'', rt)] w = (Inr info, v)"
    and sv: "sim_world a v v'"
  have info: "info \<noteq> Ref a"
    using n sim_world_length [OF sw] by (rule js_new_fresh)
  show "agree a (js_bind (js_new [(''data'', info), (''dataType'', Str ''json'')])
               (\<lambda>args. js_bind (request net c ''https://api.weibo.com/oauth2/access_token'' args)
                          (processToken c))) v v'"
    using sv ap bn ba info
    by (intro agree_new_request agree_processToken plain_literal2) (simp_all add: apart_def)
qed

lemma processToken_result:
  "processToken c dat w = (Inr tok, v) \<Longrightarrow> tok = AccessToken dat"
  by (auto simp: processToken_def js_defs split: sum.splits prod.splits)

lemma refreshAccessToken_fresh:
  assumes "a < length (heap w)" and "blind_net a net"
    and "refreshAccessToken net c rt w = (Inr tok, v)"
  shows "data tok \<noteq> Ref a"
proof -
  let ?w = "w\<lparr>heap := heap w @
      [[(''client_id'', clientId c), (''client_secret'', clientSecret c),
        (''grant_type'', Str ''refresh_token''), (''redirect_uri'', redirectUri c),
        (''refresh_token'', rt)],
       [(''data'', Ref (length (heap w))), (''dataType'', Str ''json'')]]\<rparr>"
  let ?req = "request net c ''https://api.weibo.com/oauth2/access_token'' (Ref (Suc (length (heap w)))) ?w"
  have nb: "fst ?req \<noteq> Inr (Ref a)"
    using assms(1,2) by (intro request_fresh_body) (simp_all add: props_def nth_append)
  obtain r u where req: "?req = (r, u)" by (cases ?req)
  from assms(3) have run: "(case r of Inl e \<Rightarrow> (Inl e, u) | Inr dat \<Rightarrow> processToken c dat u) = (Inr tok, v)"
    by (simp add: refreshAccessToken_def js_bind_def js_new_def alloc_def req)
  then obtain dat where r: "r = Inr dat" and pt: "processToken c dat u = (Inr tok, v)"
    by (cases r) simp_all
  from nb req r have "dat \<noteq> Ref a" by simp
  moreover have "tok = AccessToken dat" using pt by (rule processToken_result)
  ultimately show ?thesis by simp
qed


lemma or_default_unref: "v \<noteq> Ref a \<Longrightarrow> d \<noteq> Ref a \<Longrightarrow> or_default v d \<noteq> Ref a"
  by (simp add: or_default_def)

lemma js_bind_return_right: "js_bind m js_return = m"
  by (rule ext) (simp add: js_bind_def js_return_def split: prod.splits sum.splits)

lemma agree_getUser':
  assumes sw: "sim_world a w w'" and da: "defaults c \<noteq> Ref a" and bn: "blind_net a net"
    and tok: "tok \<noteq> Ref a"
  shows "agree a (getUser' net c (Ref a) tok) w w'"
  unfolding getUser'_def
proof (rule agree_bind)
  show "agree a (js_get (Ref a) ''uid'') w w'"
    using sw by (intro agree_js_get) simp_all
next
  fix uid v v'
  assume g1: "js_get (Ref a) ''uid'' w = (Inr uid, v)" and sv: "sim_world a v v'"
  have uid: "uid \<noteq> Ref a" using g1 sv by (rule js_get_unref) simp
  show "agree a (js_bind (js_get (Ref a) ''lang'') (\<lambda>lang.
           js_bind (js_new [(''access_token'', tok), (''uid'', uid),
                            (''lang'', or_default lang (Str ''en''))]) (\<lambda>info.
           js_bind (js_new [(''data'', info), (''dataType'', Str ''json'')])
             (request net c ''https://api.weibo.com/2/users/show.json'')))) v v'"
  proof (rule agree_bind)
    show "agree a (js_get (Ref a) ''lang'') v v'"
      using sv by (intro agree_js_get) simp_all
  next
    fix lang u u'
    assume g2: "js_get (Ref a) ''lang'' v = (Inr lang, u)" and su: "sim_world a u u'"
    have lang: "lang \<noteq> Ref a" using g2 su by (rule js_get_unref) simp
    show "agree a (js_bind (js_new [(''access_token'', tok), (''uid'', uid),
                            (''lang'', or_default lang (Str ''en''))]) (\<lambda>info.
           js_bind (js_new [(''data'', info), (''dataType'', Str ''json'')])
             (request net c ''https://api.weibo.com/2/users/show.json''))) u u'"
    proof (rule agree_bind)
      show "agree a (js_new [(''access_token'', tok), (''uid'', uid),
                            (''lang'', or_default lang (Str ''en''))]) u u'"
        using su tok uid lang by (intro agree_js_new plain_literal3 or_default_unref) simp_all
    next
      fix info t t'
      assume n: "js_new [(''access_token'', tok), (''uid'', uid),
                         (''lang'', or_default lang (Str ''en''))] u = (Inr info, t)"
        and st: "sim_world a t t'"
      have info: "info \<noteq> Ref a"
        using n sim_world_length [OF su] by (rule js_new_fresh)
      have "agree a (js_bind (js_new [(''data'', info), (''dataType'', Str ''json'')])
              (\<lambda>r. js_bind (request net c ''https://api.weibo.com/2/users/show.json'' r) js_return)) t t'"
        using st da bn info by (intro agree_new_request agree_return plain_literal2) simp_all
      then show "agree a (js_bind (js_new [(''data'', info), (''dataType'', Str ''json'')])
             (request net c ''https://api.weibo.com/2/users/show.json'')) t t'"
        by (simp add: js_bind_return_right)
    qed
  qed
qed

lemma js_bind_return: "js_bind (js_return x) f = f x"
  by (rule ext) (simp add: js_bind_def js_return_def)

lemma js_bind_Inr:
  assumes "js_bind m f w = (Inr y, t)"
  obtains x v where "m w = (Inr x, v)" and "f x v = (Inr y, t)"
  using assms by (auto simp: js_bind_def split: prod.splits sum.splits)

lemma agree_resolve_token:
  assumes su: "sim_world a u u'" and dat: "dat \<noteq> Ref a" and ap: "apart a c"
    and bn: "blind_net a net" and ba: "blind_adapter a c"
  shows "agree a (if valid then js_get dat ''access_token''
                  else js_bind (js_get dat ''refresh_token'') (\<lambda>rt.
                       js_bind (refreshAccessToken net c rt) (\<lambda>newToken.
                       js_get (data newToken) ''access_token''))) u u'"
proof (cases valid)
  case True
  then show ?thesis using su dat by (simp add: agree_js_get)
next
  case False
  have "agree a (js_bind (js_get dat ''refresh_token'') (\<lambda>rt.
                 js_bind (refreshAccessToken net c rt) (\<lambda>newToken.
                 js_get (data newToken) ''access_token''))) u u'"
  proof (rule agree_bind)
    show "agree a (js_get dat ''refresh_token'') u u'"
      using su by (intro agree_js_get) simp_all
  next
    fix rt v v'
    assume g: "js_get dat ''refresh_token'' u = (Inr rt, v)" and sv: "sim_world a v v'"
    have rt: "rt \<noteq> Ref a" using g sv by (rule js_get_unref) simp
    show "agree a (js_bind (refreshAccessToken net c rt) (\<lambda>newToken.
                     js_get (data newToken) ''access_token'')) v v'"
    proof (rule agree_bind)
      show "agree a (refreshAccessToken net c rt) v v'"
        using sv ap bn ba rt by (rule agree_refreshAccessToken)
    next
      fix newToken t t'
      assume run: "refreshAccessToken net c rt v = (Inr newToken, t)" and st: "sim_world a t t'"
      have "data newToken \<noteq> Ref a"
        using sim_world_length [OF sv] bn run by (rule refreshAccessToken_fresh)
      then show "agree a (js_get (data newToken) ''access_token'') t t'"
        using st by (intro agree_js_get) simp_all
    qed
  qed
  then show ?thesis using False by simp
qed

text \<open>The access token that is resolved is not the options object.\<close>

lemma resolve_token_unref:
  assumes su: "sim_world a u u'" and dat: "dat \<noteq> Ref a" and bn: "blind_net a net"
    and run: "(if valid then js_get dat ''access_token''
               else js_bind (js_get dat ''refresh_token'') (\<lambda>rt.
                    js_bind (refreshAccessToken net c rt) (\<lambda>newToken.
                    js_get (data newToken) ''access_token''))) u = (Inr tok, t)"
    and st: "sim_world a t t'"
  shows "tok \<noteq> Ref a"
proof (cases valid)
  case True
  then have "js_get dat ''access_token'' u = (Inr tok, t)" using run by simp
  then show ?thesis using st by (rule js_get_unref) (simp add: dat)
next
  case False
  then have r: "js_bind (js_get dat ''refresh_token'') (\<lambda>rt.
                    js_bind (refreshAccessToken net c rt) (\<lambda>newToken.
                    js_get (data newToken) ''access_token'')) u = (Inr tok, t)"
    using run by simp
  from r obtain rt v where g: "js_get dat ''refresh_token'' u = (Inr rt, v)"
    and r2: "js_bind (refreshAccessToken net c rt) (\<lambda>newToken.
                    js_get (data newToken) ''access_token'') v = (Inr tok, t)"
    by (rule js_bind_Inr)
  from r2 obtain nt v2 where rf: "refreshAccessToken net c rt v = (Inr nt, v2)"
    and g2: "js_get (data nt) ''access_token'' v2 = (Inr tok, t)"
    by (rule js_bind_Inr)
  have "v = u" using g by (auto simp: js_get_def split: sum.splits)
  then have "a < length (heap v)" using sim_world_length [OF su] by simp
  then have "data nt \<noteq> Ref a" using bn rf by (rule refreshAccessToken_fresh)
  then show ?thesis using g2 st by (intro js_get_unref [OF g2 st]) simp
qed


lemma agree_after_load:
  assumes su: "sim_world a u u'" and dat: "dat \<noteq> Ref a" and ap: "apart a c"
    and bn: "blind_net a net" and ba: "blind_adapter a c"
  shows "agree a
     (if \<not> truthy dat then
         js_bind (js_get (Ref a) ''uid'') (\<lambda>uid'. js_throw (NoOAuthTokenError uid'))
       else
         (let token = AccessToken dat in
          js_bind (js_isValid token) (\<lambda>valid.
          js_bind (if valid then js_get (data token) ''access_token''
                   else js_bind (js_get (data token) ''refresh_token'') (\<lambda>rt.
                        js_bind (refreshAccessToken net c rt) (\<lambda>newToken.
                        js_get (data newToken) ''access_token''))) (\<lambda>accessToken.
          getUser' net c (Ref a) accessToken)))) u u'"
proof (cases "truthy dat")
  case False
  have "agree a (js_bind (js_get (Ref a) ''uid'') (\<lambda>uid'. js_throw (NoOAuthTokenError uid'))) u u'"
  proof (rule agree_bind)
    show "agree a (js_get (Ref a) ''uid'') u u'"
      using su by (intro agree_js_get) simp_all
  next
    fix x v v' assume "sim_world a v v'"
    then show "agree a (js_throw (NoOAuthTokenError x)) v v'" by (rule agree_throw)
  qed
  then show ?thesis using False by simp
next
  case True
  have da: "defaults c \<noteq> Ref a" using ap by (simp add: apart_def)
  have "agree a (js_bind (js_isValid (AccessToken dat)) (\<lambda>valid.
          js_bind (if valid then js_get dat ''access_token''
                   else js_bind (js_get dat ''refresh_token'') (\<lambda>rt.
                        js_bind (refreshAccessToken net c rt) (\<lambda>newToken.
                        js_get (data newToken) ''access_token''))) (\<lambda>accessToken.
          getUser' net c (Ref a) accessToken))) u u'"
  proof (rule agree_bind)
    show "agree a (js_isValid (AccessToken dat)) u u'"
      using su dat by (rule agree_isValid)
  next
    fix valid v v' assume sv: "sim_world a v v'"
    show "agree a (js_bind (if valid then js_get dat ''access_token''
                   else js_bind (js_get dat ''refresh_token'') (\<lambda>rt.
                        js_bind (refreshAccessToken net c rt) (\<lambda>newToken.
                        js_get (data newToken) ''access_token''))) (\<lambda>accessToken.
          getUser' net c (Ref a) accessToken)) v v'"
    proof (rule agree_bind)
      show "agree a (if valid then js_get dat ''access_token''
                   else js_bind (js_get dat ''refresh_token'') (\<lambda>rt.
                        js_bind (refreshAccessToken net c rt) (\<lambda>newToken.
                        js_get (data newToken) ''access_token''))) v v'"
        using sv dat ap bn ba by (rule agree_resolve_token)
    next
      fix tok t t'
      assume run: "(if valid then js_get dat ''access_token''
                   else js_bind (js_get dat ''refresh_token'') (\<lambda>rt.
                        js_bind (refreshAccessToken net c rt) (\<lambda>newToken.
                        js_get (data newToken) ''access_token''))) v = (Inr tok, t)"
        and st: "sim_world a t t'"
      have "tok \<noteq> Ref a"
        using sv dat bn run st by (rule resolve_token_unref)
      with st da bn show "agree a (getUser' net c (Ref a) tok) t t'"
        by (rule agree_getUser')
    qed
  qed
  then show ?thesis using True by (simp add: Let_def cong: if_cong)
qed

lemma agree_getUser:
  assumes sw: "sim_world a w w'" and ap: "apart a c"
    and bn: "blind_net a net" and ba: "blind_adapter a c"
    and cached: "fst (getToken c (prop_read (heap w) a ''uid'') w) \<noteq> Inr (Ref a)"
  shows "agree a (getUser net c (Ref a)) w w'"
  unfolding getUser_def typeof_object.simps not_True_eq_False if_False js_bind_return
proof (rule agree_bind)
  show "agree a (js_get (Ref a) ''uid'') w w'"
    using sw by (intro agree_js_get) simp_all
next
  fix uid v v'
  assume g: "js_get (Ref a) ''uid'' w = (Inr uid, v)" and sv: "sim_world a v v'"
  from g have uid: "uid = prop_read (heap w) a ''uid''" and v: "v = w"
    by (auto simp: js_get_def)
  have ur: "uid \<noteq> Ref a" using g sv by (rule js_get_unref) simp
  show "agree a (js_bind (getToken c uid) (\<lambda>dat.
       if \<not> truthy dat then
         js_bind (js_get (Ref a) ''uid'') (\<lambda>uid'. js_throw (NoOAuthTokenError uid'))
       else
         (let token = AccessToken dat in
          js_bind (js_isValid token) (\<lambda>valid.
          js_bind (if valid then js_get (data token) ''access_token''
                   else js_bind (js_get (data token) ''refresh_token'') (\<lambda>rt.
                        js_bind (refreshAccessToken net c rt) (\<lambda>newToken.
                        js_get (data newToken) ''access_token''))) (\<lambda>accessToken.
          getUser' net c (Ref a) accessToken))))) v v'"
  proof (rule agree_bind)
    show "agree a (getToken c uid) v v'"
      using sv ba ur by (simp add: blind_adapter_def)
  next
    fix dat u u'
    assume l: "getToken c uid v = (Inr dat, u)" and su: "sim_world a u u'"
    have "dat \<noteq> Ref a" using cached l by (auto simp: uid v)
    then show "agree a
     (if \<not> truthy dat then
         js_bind (js_get (Ref a) ''uid'') (\<lambda>uid'. js_throw (NoOAuthTokenError uid'))
       else
         (let token = AccessToken dat in
          js_bind (js_isValid token) (\<lambda>valid.
          js_bind (if valid then js_get (data token) ''access_token''
                   else js_bind (js_get (data token) ''refresh_token'') (\<lambda>rt.
                        js_bind (refreshAccessToken net c rt) (\<lambda>newToken.
                        js_get (data newToken) ''access_token''))) (\<lambda>accessToken.
          getUser' net c (Ref a) accessToken)))) u u'"
      using su ap bn ba by (intro agree_after_load)
  qed
qed

lemma sim_replace:
  assumes "a < length h" and "\<And>k. k \<noteq> ''access_token'' \<Longrightarrow> lookup ob k = prop_read h a k"
  shows "sim a h (h[a := ob])"
  using assms by (auto simp: sim_def props_def prop_read_def lookup_def)

text \<open>The example transport and the copying adapter satisfy the two conditions.\<close>

lemma copying_client_simps:
  "copying_client = \<lparr>clientId = Str ''id'', clientSecret = Str ''secret'', redirectUri = Str ''http://cb'',
      store = 0, getToken = copy_getToken 0, saveToken = copy_saveToken 0, defaults = Ref 1\<rparr>"
  by (simp add: copying_client_def OAuth_def alloc_def empty_world_def)

lemma unref_listI:
  assumes "\<forall>ob \<in> set h. \<forall>v \<in> snd ` set ob. v \<noteq> Ref a"
  shows "unref a h"
proof -
  have "prop_read h b k \<noteq> Ref a" for b k
  proof (cases "map_of (props h b) k")
    case None
    then show ?thesis by (simp add: prop_read_def)
  next
    case (Some v)
    then have in_ob: "(k, v) \<in> set (props h b)" by (rule map_of_SomeD)
    then have "b < length h" by (auto simp: props_def split: if_splits)
    then have "props h b \<in> set h" by (simp add: props_def)
    with assms in_ob have "v \<noteq> Ref a" by force
    then show ?thesis using Some by (simp add: prop_read_def)
  qed
  then show ?thesis by (simp add: unref_def)
qed

lemma sim_peek:
  assumes "sim a h h'" and "v \<noteq> Ref a \<or> k \<noteq> ''access_token''"
  shows "peek h' v k = peek h v k"
  using sim_get_prop [OF assms] by (simp add: peek_def)

lemma blind_validating_net: "blind_net a validating_net"
proof -
  have same: "validating_net n url v g' = validating_net n url v g"
    if s: "sim a g g'" and nr: "\<not> reaches g v a" for n url v g g'
  proof -
    have len: "length g' = length g" using s by (simp add: sim_def)
    have v: "v \<noteq> Ref a" using nr by (auto intro: reaches.here)
    have d: "peek g' v ''data'' = peek g v ''data''"
      by (rule sim_peek [OF s disjI1 [OF v]])
    have "peek g v ''data'' \<noteq> Ref a"
    proof (cases v)
      case (Ref b)
      show ?thesis
      proof
        assume "peek g v ''data'' = Ref a"
        then have "prop_read g b ''data'' = Ref a" by (simp add: peek_def Ref)
        then have "reaches g (Ref b) a"
          using reaches.step [of g b "''data''" a] by (simp add: reaches.here)
        then show False using nr Ref by simp
      qed
    qed (simp_all add: peek_def)
    then have t: "peek g' (peek g v ''data'') ''access_token'' = peek g (peek g v ''data'') ''access_token''"
      by (rule sim_peek [OF s disjI1])
    show ?thesis by (simp add: validating_net_def len d t)
  qed
  have new: "outcome (validating_net n url v g) \<noteq> Inr (Ref a) \<and>
             plain_objs a (fresh (validating_net n url v g))"
    if "a < length g" for n url v g
    using that by (simp add: validating_net_def plain_objs_def lookup_def)
  show ?thesis
    unfolding blind_net_def using same new by blast
qed

lemma blind_default_adapter:
  assumes "getToken c = default_getToken st" and "saveToken c = default_saveToken st" and "st \<noteq> a"
  shows "blind_adapter a c"
proof -
  have "agree a (default_getToken st uid) w w'" if "sim_world a w w'" for uid w w'
    using that assms(3) sim_prop_read [of a "heap w" "heap w'" st]
    by (simp add: agree_def default_getToken_def sim_world_def)
  moreover have "agree a (default_saveToken st uid t) w w'"
    if "sim_world a w w'" and "t \<noteq> Ref a" for uid t w w'
    using that assms(3) sim_prop_write [of a "heap w" "heap w'" st]
      unref_prop_write [of a "heap w" t st]
    by (simp add: agree_def default_saveToken_def sim_world_def)
  ultimately show ?thesis
    by (simp add: blind_adapter_def assms(1,2))
qed

lemma plain_copy:
  assumes "unref a h" and "b \<noteq> a"
  shows "plain_objs a [props h b]"
  using assms by (simp add: plain_objs_def unref_def prop_read_lookup [symmetric])

lemma blind_copying_adapter:
  assumes "getToken c = copy_getToken st" and "saveToken c = copy_saveToken st" and "st \<noteq> a"
  shows "blind_adapter a c"
proof -
  have load: "agree a (copy_getToken st uid) w w'" if sw: "sim_world a w w'" for uid w w'
  proof -
    have sh: "sim a (heap w) (heap w')" and un: "unref a (heap w)"
      using sw by (simp_all add: sim_world_def)
    have len: "length (heap w') = length (heap w)" using sh by (simp add: sim_def)
    have r: "prop_read (heap w') st (to_string uid) = prop_read (heap w) st (to_string uid)"
      by (rule sim_prop_read [OF sh disjI1 [OF assms(3)]])
    show ?thesis
    proof (cases "prop_read (heap w) st (to_string uid)")
      case (Ref b)
      have b: "b \<noteq> a" using un assms(3) Ref by (auto simp: unref_def)
      have p: "props (heap w') b = props (heap w) b" using sh b by (simp add: sim_def)
      have "sim a (heap w @ [props (heap w) b]) (heap w' @ [props (heap w) b])"
        using sh by (rule sim_append)
      moreover have "unref a (heap w @ [props (heap w) b])"
        using un plain_copy [OF un b] by (rule unref_append)
      ultimately show ?thesis
        using sw by (simp add: agree_def copy_getToken_def r Ref p len sim_world_def)
    qed (use sw r in \<open>simp_all add: agree_def copy_getToken_def\<close>)
  qed
  have save: "agree a (copy_saveToken st uid t) w w'"
    if sw: "sim_world a w w'" and t: "t \<noteq> Ref a" for uid t w w'
  proof -
    have sh: "sim a (heap w) (heap w')" and un: "unref a (heap w)"
      using sw by (simp_all add: sim_world_def)
    have len: "length (heap w') = length (heap w)" and a: "a < length (heap w)"
      using sh by (simp_all add: sim_def)
    show ?thesis
    proof (cases t)
      case (Ref b)
      have b: "b \<noteq> a" using t Ref by simp
      have p: "props (heap w') b = props (heap w) b" using sh b by (simp add: sim_def)
      let ?k = "to_string uid" and ?n = "Ref (length (heap w))"
      have "sim a (heap w @ [props (heap w) b]) (heap w' @ [props (heap w) b])"
        using sh by (rule sim_append)
      then have s2: "sim a (prop_write st ?k ?n (heap w @ [props (heap w) b]))
                         (prop_write st ?k ?n (heap w' @ [props (heap w) b]))"
        by (rule sim_prop_write [OF _ disjI1 [OF assms(3)]])
      have "unref a (heap w @ [props (heap w) b])"
        using un plain_copy [OF un b] by (rule unref_append)
      then have u2: "unref a (prop_write st ?k ?n (heap w @ [props (heap w) b]))"
        using a by (intro unref_prop_write [of a]) simp_all
      show ?thesis
        using sw s2 u2 by (simp add: agree_def copy_saveToken_def Ref p len sim_world_def)
    next
      case Undefined
      then show ?thesis
        using sw assms(3) sim_prop_write [of a "heap w" "heap w'" st]
          unref_prop_write [of a "heap w" t st]
        by (simp add: agree_def copy_saveToken_def sim_world_def)
    next
      case Null
      then show ?thesis
        using sw assms(3) sim_prop_write [of a "heap w" "heap w'" st]
          unref_prop_write [of a "heap w" t st]
        by (simp add: agree_def copy_saveToken_def sim_world_def)
    next
      case (Bool x)
      then show ?thesis
        using sw assms(3) sim_prop_write [of a "heap w" "heap w'" st]
          unref_prop_write [of a "heap w" t st]
        by (simp add: agree_def copy_saveToken_def sim_world_def)
    next
      case (Num x)
      then show ?thesis
        using sw assms(3) sim_prop_write [of a "heap w" "heap w'" st]
          unref_prop_write [of a "heap w" t st]
        by (simp add: agree_def copy_saveToken_def sim_world_def)
    next
      case NaN
      then show ?thesis
        using sw assms(3) sim_prop_write [of a "heap w" "heap w'" st]
          unref_prop_write [of a "heap w" t st]
        by (simp add: agree_def copy_saveToken_def sim_world_def)
    next
      case (Str x)
      then show ?thesis
        using sw assms(3) sim_prop_write [of a "heap w" "heap w'" st]
          unref_prop_write [of a "heap w" t st]
        by (simp add: agree_def copy_saveToken_def sim_world_def)
    qed
  qed
  show ?thesis
    using load save by (simp add: blind_adapter_def assms(1,2))
qed

section \<open>Token validity\<close>

lemma isValid_object:
  "isValid (AccessToken (Ref a)) t h =
     Inr (truthy (prop_read h a ''access_token'') \<and>
          js_lt (Num t) (js_add (prop_read h a ''create_at'')
                                (js_mul (prop_read h a ''expires_in'') (Num 1000))))"
  by (simp add: isValid_def)

text \<open>
  C1. For a token object whose \<open>access_token\<close> is a string: \<open>isValid\<close> is false when the
  string is empty, whatever the other fields are; with number fields \<open>create_at = T\<close> and
  \<open>expires_in = E\<close> it is true at time \<open>t\<close> exactly when the string is not empty and
  \<open>t < T + E * 1000\<close>; so a token with a non-empty string is valid at
  \<open>T + (E * 1000 - 1)\<close> and not valid at \<open>T + E * 1000 + 1\<close>.
\<close>

theorem isValid_iff_unexpired:
  assumes "prop_read h a ''access_token'' = Str s"
  shows "(s = [] \<longrightarrow> isValid (AccessToken (Ref a)) t h = Inr False) \<and>
         (prop_read h a ''create_at'' = Num T \<and> prop_read h a ''expires_in'' = Num E \<longrightarrow>
            isValid (AccessToken (Ref a)) t h = Inr (s \<noteq> [] \<and> t < T + E * 1000) \<and>
            (s \<noteq> [] \<longrightarrow>
               isValid (AccessToken (Ref a)) (T + (E * 1000 - 1)) h = Inr True \<and>
               isValid (AccessToken (Ref a)) (T + E * 1000 + 1) h = Inr False))"
  using assms by (simp add: isValid_object js_lt_def js_add_def js_mul_def)

theorem isValid_iff_unexpired_witness:
  "isValid (AccessToken (Ref 0)) 5
     [[(''access_token'', Str []), (''create_at'', Num 0), (''expires_in'', Num 7200)]] = Inr False \<and>
   isValid (AccessToken (Ref 0)) 8199999
     [[(''access_token'', Str ''t''), (''create_at'', Num 1000000), (''expires_in'', Num 7200)]] = Inr True \<and>
   isValid (AccessToken (Ref 0)) 8200001
     [[(''access_token'', Str ''t''), (''create_at'', Num 1000000), (''expires_in'', Num 7200)]] = Inr False"
  using isValid_iff_unexpired [of "[[(''access_token'', Str []), (''create_at'', Num 0), (''expires_in'', Num 7200)]]"
          0 "[]" 5 0 7200]
        isValid_iff_unexpired [of "[[(''access_token'', Str ''t''), (''create_at'', Num 1000000), (''expires_in'', Num 7200)]]"
          0 "''t''" 0 1000000 7200]
  by (simp add: prop_read_def props_def)

section \<open>The authorization URL\<close>

text \<open>
  C7. \<open>getAuthorizeURL\<close> is a function of the client and its arguments alone. It returns
  the fixed address, \<open>?\<close>, the query string of \<open>client_id\<close>, the configured \<open>redirect_uri\<close>,
  \<open>response_type=code\<close>, the scope (\<open>users_show\<close> when the argument is falsy) and the
  state (the empty string when the argument is falsy), then \<open>#weibo_redirect\<close>; the
  \<open>redirect\<close> argument has no influence on it.
\<close>

theorem getAuthorizeURL_shape:
  "getAuthorizeURL stringify c redirect state scope =
     ''https://api.weibo.com/oauth2/authorize?'' @
     stringify [(''client_id'', clientId c),
                (''redirect_uri'', redirectUri c),
                (''response_type'', Str ''code''),
                (''scope'', if truthy scope then scope else Str ''users_show''),
                (''state'', if truthy state then state else Str [])] @
     ''#weibo_redirect'' \<and>
   getAuthorizeURL stringify c redirect' state scope =
     getAuthorizeURL stringify c redirect state scope"
  by (simp add: getAuthorizeURL_def or_default_def)

section \<open>The request funnel\<close>

text \<open>
  C6, as amended. Whatever the operation, its options and the HTTP status: when the
  transport answers with a decoded body other than \<open>null\<close> (or \<open>undefined\<close>), \<open>request\<close>
  throws an error named \<open>WeiboAPIError\<close> if the body's \<open>error\<close> property is truthy, with
  the body's \<open>error_code\<close> as code and the string of its \<open>error_description\<close> as message
  (the empty message when there is none); otherwise it returns the body, the same value,
  which the store holds as decoded.
\<close>

theorem request_body_error:
  assumes "build_options (defaults c) opts (heap w) = (opt, h)"
    and "net (length (sent w)) url (Ref opt) h = r"
    and "outcome r = Inr body" and "body \<noteq> Undefined" and "body \<noteq> Null"
  shows "request net c url opts w =
           (if truthy (peek (h @ fresh r) body ''error'')
            then Inl \<lparr>ename = ''WeiboAPIError'',
                      emessage = (if peek (h @ fresh r) body ''error_description'' = Undefined then []
                                  else to_string (peek (h @ fresh r) body ''error_description'')),
                      ecode = peek (h @ fresh r) body ''error_code''\<rparr>
            else Inr body,
            \<lparr>heap = h @ fresh r, clock = clock w + int (elapsed r),
             sent = sent w @ [(url, Ref opt)]\<rparr>) \<and>
         request (\<lambda>n u v g. (net n u v g)\<lparr>status := st\<rparr>) c url opts w = request net c url opts w"
  using assms by (cases body) (simp_all add: request_def new_Error_def Let_def peek_def)

theorem request_body_error_witness:
  "request error_net example_client ''u'' Undefined example_world =
     (Inl \<lparr>ename = ''WeiboAPIError'', emessage = ''expired'', ecode = Num 21327\<rparr>,
      \<lparr>heap = [[], [], [], [], [(''error'', Str ''bad''), (''error_code'', Num 21327),
                (''error_description'', Str ''expired'')]], clock = 1000,
       sent = [(''u'', Ref 2)]\<rparr>)"
  using request_body_error [of example_client Undefined example_world 2 "[[], [], [], []]" error_net "''u''"
     "error_net 0 ''u'' (Ref 2) [[], [], [], []]" "Ref 4"]
  by (simp add: example_client_simps build_options_def alloc_def extend_def props_def error_net_def
        prop_read_def peek_def)

text \<open>A body whose \<open>error\<close> property is the empty string is returned, not thrown; on the
  body \<open>null\<close> the read of \<open>data.error\<close> throws a TypeError, and nothing is returned.\<close>

theorem request_falsy_error_counterexample:
  "request falsy_error_net example_client ''u'' Undefined example_world =
     (Inr (Ref 4),
      \<lparr>heap = [[], [], [], [], [(''error'', Str []), (''error_code'', Num 21327),
                (''error_description'', Str ''expired'')]], clock = 1000,
       sent = [(''u'', Ref 2)]\<rparr>) \<and>
   request null_net example_client ''u'' Undefined example_world =
     (Inl (TypeError ''Cannot read property error of null''),
      \<lparr>heap = [[], [], [], []], clock = 1000, sent = [(''u'', Ref 2)]\<rparr>)"
  by (simp add: example_client_simps request_def build_options_def alloc_def extend_def
        props_def falsy_error_net_def null_net_def prop_read_def)

text \<open>
  C8. The client's options are an object \<open>d\<close> and the call's options an object \<open>s\<close>, both
  well formed: no property twice, \<open>headers\<close> an object or falsy, and the client's \<open>headers\<close>
  not the call's options object itself. Then the transport is called with a new object
  \<open>opt\<close> read in the store \<open>H\<close>, where: every property but \<open>headers\<close> has the call's value if
  the call's options have that property, and the client's value otherwise; \<open>headers\<close> is
  the client's if the call's is falsy; and if the call's \<open>headers\<close> is an object,
  \<open>headers\<close> is an object in which every header of the call has the call's value and
  every other header has the client's value.
\<close>

theorem options_merge:
  assumes "defaults c = Ref d" and "heap w = h" and "d < length h" and "s < length h"
    and "distinct (map fst (props h s))"
    and "object_or_falsy h (prop_read h s ''headers'')"
    and "object_or_falsy h (prop_read h d ''headers'')"
    and "prop_read h d ''headers'' \<noteq> Ref s"
    and "build_options (defaults c) (Ref s) (heap w) = (opt, H)"
  shows "snd (request net c url (Ref s) w) =
           w\<lparr>heap := H @ fresh (net (length (sent w)) url (Ref opt) H),
             clock := clock w + int (elapsed (net (length (sent w)) url (Ref opt) H)),
             sent := sent w @ [(url, Ref opt)]\<rparr> \<and>
         opt = length h \<and>
         (\<forall>k. k \<noteq> ''headers'' \<longrightarrow>
            prop_read H opt k =
              (if k \<in> fst ` set (props h s) then prop_read h s k else prop_read h d k)) \<and>
         (\<not> truthy (prop_read h s ''headers'') \<longrightarrow>
            prop_read H opt ''headers'' = prop_read h d ''headers'') \<and>
         (\<forall>hs. prop_read h s ''headers'' = Ref hs \<longrightarrow>
            (\<exists>x. prop_read H opt ''headers'' = Ref x \<and>
                 (\<forall>j. prop_read H x j =
                    (if j \<in> fst ` set (props h hs) then prop_read h hs j
                     else case prop_read h d ''headers'' of
                            Ref a \<Rightarrow> prop_read h a j
                          | _ \<Rightarrow> Undefined))))"
proof -
  have bo: "build_options (Ref d) (Ref s) h = (opt, H)"
    using assms(1,2,9) by simp
  show ?thesis
    by (rule conjI) (rule request_world [OF assms(9)], rule build_options_reads [OF assms(3-8) bo])
qed

theorem options_merge_witness:
  "build_options (Ref 2) (Ref 4) (heap headers_world) =
     (6, [[], [],
          [(''headers'', Ref 3), (''timeout'', Num 15000)],
          [(''User-Agent'', Str ''sdk''), (''X-Trace'', Str ''1'')],
          [(''headers'', Ref 5)],
          [(''X-Trace'', Str ''1'')],
          [(''headers'', Ref 3), (''timeout'', Num 15000)]]) \<and>
   prop_read [[], [],
          [(''headers'', Ref 3), (''timeout'', Num 15000)],
          [(''User-Agent'', Str ''sdk''), (''X-Trace'', Str ''1'')],
          [(''headers'', Ref 5)],
          [(''X-Trace'', Str ''1'')],
          [(''headers'', Ref 3), (''timeout'', Num 15000)]] 6 ''timeout'' = Num 15000"
proof -
  let ?H = "[[], [],
          [(''headers'', Ref 3), (''timeout'', Num 15000)],
          [(''User-Agent'', Str ''sdk''), (''X-Trace'', Str ''1'')],
          [(''headers'', Ref 5)],
          [(''X-Trace'', Str ''1'')],
          [(''headers'', Ref 3), (''timeout'', Num 15000)]]"
  let ?c = "setOpts example_client (Ref 2)"
  have h1: "defaults ?c = Ref 2" by (simp add: setOpts_def)
  have h3: "2 < length (heap headers_world)" by (simp add: headers_world_def)
  have h4: "4 < length (heap headers_world)" by (simp add: headers_world_def)
  have h5: "distinct (map fst (props (heap headers_world) 4))"
    by (simp add: headers_world_def props_def)
  have h6: "object_or_falsy (heap headers_world) (prop_read (heap headers_world) 4 ''headers'')"
    by (simp add: headers_world_def props_def prop_read_def object_or_falsy_def)
  have h7: "object_or_falsy (heap headers_world) (prop_read (heap headers_world) 2 ''headers'')"
    by (simp add: headers_world_def props_def prop_read_def object_or_falsy_def)
  have h8: "prop_read (heap headers_world) 2 ''headers'' \<noteq> Ref 4"
    by (simp add: headers_world_def props_def prop_read_def)
  have h9: "build_options (defaults ?c) (Ref 4) (heap headers_world) = (6, ?H)"
    by (simp add: h1 headers_world_def build_options_def alloc_def extend_def props_def
          prop_read_def prop_write_def merge_key_def Let_def)
  from options_merge [OF h1 refl h3 h4 h5 h6 h7 h8 h9, of token_net "''u''"]
  have "prop_read ?H 6 ''timeout'' =
          (if ''timeout'' \<in> fst ` set (props (heap headers_world) 4)
           then prop_read (heap headers_world) 4 ''timeout''
           else prop_read (heap headers_world) 2 ''timeout'')"
    by simp
  then have "prop_read ?H 6 ''timeout'' = Num 15000"
    by (simp add: headers_world_def props_def prop_read_def)
  then show ?thesis
    using h9 by (simp add: h1)
qed

text \<open>
  C9, on the code: the client's options are the object 2, whose \<open>headers\<close> is the object 3;
  the call's options, the object 4, carry the header \<open>X-Trace\<close>. After the call the
  client's own \<open>headers\<close> object holds \<open>X-Trace\<close> too: \<open>options.headers\<close> is the very
  object of the defaults, and \<open>extend\<close> writes into it.
\<close>

theorem request_writes_default_headers:
  "props (heap headers_world) 3 = [(''User-Agent'', Str ''sdk'')] \<and>
   props (heap (snd (request token_net (setOpts example_client (Ref 2)) ''u'' (Ref 4) headers_world))) 3 =
     [(''User-Agent'', Str ''sdk''), (''X-Trace'', Str ''1'')]"
  by (simp add: headers_world_def example_client_simps setOpts_def request_def build_options_def
        alloc_def extend_def props_def prop_read_def prop_write_def merge_key_def token_net_def Let_def)

section \<open>Minting and refreshing a token\<close>

text \<open>
  C4. \<open>getAccessToken\<close> and \<open>refreshAccessToken\<close> put their \<open>info\<close> and \<open>args\<close> objects in the
  store and send the token request. When it returns a body object \<open>b\<close> in world \<open>w1\<close>,
  \<open>create_at\<close> of \<open>b\<close> is set, once, to the clock of \<open>w1\<close>, every other property of \<open>b\<close>
  stays as decoded, \<open>saveToken\<close> is called with the \<open>uid\<close> of \<open>b\<close> and with \<open>b\<close> itself in
  the world so stamped, and when it returns, the call returns the AccessToken that wraps
  \<open>b\<close>, the object that was saved, in the world the adapter left.
\<close>

theorem token_stamped_saved_returned:
  assumes "request net c ''https://api.weibo.com/oauth2/access_token'' (Ref (Suc (length (heap w))))
             (w\<lparr>heap := heap w @ [info, args]\<rparr>) = (Inr (Ref b), w1)"
    and "saveToken c (prop_read (heap w1) b ''uid'') (Ref b)
             (w1\<lparr>heap := prop_write b ''create_at'' (Num (clock w1)) (heap w1)\<rparr>) = (Inr (), w2)"
  shows "(info = [(''client_id'', clientId c), (''client_secret'', clientSecret c), (''code'', code),
                  (''grant_type'', Str ''authorization_code''), (''redirect_uri'', redirectUri c)] \<and>
          args = [(''method'', Str ''POST''), (''data'', Ref (length (heap w))), (''dataType'', Str ''json'')]
          \<longrightarrow> getAccessToken net c code w = (Inr (AccessToken (Ref b)), w2)) \<and>
         (info = [(''client_id'', clientId c), (''client_secret'', clientSecret c),
                  (''grant_type'', Str ''refresh_token''), (''redirect_uri'', redirectUri c),
                  (''refresh_token'', refreshToken)] \<and>
          args = [(''data'', Ref (length (heap w))), (''dataType'', Str ''json'')]
          \<longrightarrow> refreshAccessToken net c refreshToken w = (Inr (AccessToken (Ref b)), w2)) \<and>
         (b < length (heap w1) \<longrightarrow>
            prop_read (prop_write b ''create_at'' (Num (clock w1)) (heap w1)) b ''create_at'' = Num (clock w1)) \<and>
         (\<forall>k. k \<noteq> ''create_at'' \<longrightarrow>
            prop_read (prop_write b ''create_at'' (Num (clock w1)) (heap w1)) b k = prop_read (heap w1) b k)"
  using assms
  by (auto simp: getAccessToken_def refreshAccessToken_def js_bind_def js_new_def alloc_def
        processToken_object prop_read_prop_write)

theorem token_stamped_saved_returned_witness:
  "getAccessToken token_net example_client (Str ''code'') example_world =
     (Inr (AccessToken (Ref 5)),
      \<lparr>heap =
     [[(''u1'', Ref 5)], [],
      [(''client_id'', Str ''id''), (''client_secret'', Str ''secret''),
       (''code'', Str ''code''),
       (''grant_type'', Str ''authorization_code''),
       (''redirect_uri'', Str ''http://cb'')],
      [(''method'', Str ''POST''), (''data'', Ref 2),
       (''dataType'', Str ''json'')],
      [(''method'', Str ''POST''), (''data'', Ref 2),
       (''dataType'', Str ''json'')],
      [(''access_token'', Str ''2.00abc''), (''expires_in'', Num 7200),
       (''refresh_token'', Str ''r2''), (''uid'', Str ''u1''),
       (''create_at'', Num 1005)]],
     clock = 1005,
     sent =
       [(''https://api.weibo.com/oauth2/access_token'', Ref 4)]\<rparr>)"
  using token_stamped_saved_returned [of token_net example_client example_world
     "[(''client_id'', Str ''id''), (''client_secret'', Str ''secret''),
       (''code'', Str ''code''),
       (''grant_type'', Str ''authorization_code''),
       (''redirect_uri'', Str ''http://cb'')]"
     "[(''method'', Str ''POST''), (''data'', Ref 2),
       (''dataType'', Str ''json'')]" 5
     "\<lparr>heap =
     [[], [],
      [(''client_id'', Str ''id''), (''client_secret'', Str ''secret''),
       (''code'', Str ''code''),
       (''grant_type'', Str ''authorization_code''),
       (''redirect_uri'', Str ''http://cb'')],
      [(''method'', Str ''POST''), (''data'', Ref 2),
       (''dataType'', Str ''json'')],
      [(''method'', Str ''POST''), (''data'', Ref 2),
       (''dataType'', Str ''json'')],
      [(''access_token'', Str ''2.00abc''), (''expires_in'', Num 7200),
       (''refresh_token'', Str ''r2''), (''uid'', Str ''u1'')]],
     clock = 1005,
     sent =
       [(''https://api.weibo.com/oauth2/access_token'', Ref 4)]\<rparr>" _ "Str ''code''"]
  by (simp add: example_client_simps request_def build_options_def alloc_def extend_def
        props_def token_net_def prop_read_def prop_write_def merge_key_def default_saveToken_def)



text \<open>
  C5, on the code: for the client of the constructor, whose default options are empty. The
  refresh request goes to the token address with an \<open>info\<close> object like the one of
  \<open>getAccessToken\<close>, \<open>grant_type\<close> being \<open>refresh_token\<close>, \<open>code\<close> left out and
  \<open>refresh_token\<close> put in; but its options have no \<open>method\<close>, where those of
  \<open>getAccessToken\<close> have \<open>method: 'POST'\<close>. (The three objects listed are \<open>info\<close>, \<open>args\<close> and
  the options handed to the transport.)
\<close>

theorem refresh_request_has_no_method:
  "sent (snd (refreshAccessToken token_net example_client (Str ''r1'') example_world)) =
     [(''https://api.weibo.com/oauth2/access_token'', Ref 4)] \<and>
   take 3 (drop 2 (heap (snd (refreshAccessToken token_net example_client (Str ''r1'') example_world)))) =
     [[(''client_id'', Str ''id''), (''client_secret'', Str ''secret''),
       (''grant_type'', Str ''refresh_token''), (''redirect_uri'', Str ''http://cb''),
       (''refresh_token'', Str ''r1'')],
      [(''data'', Ref 2), (''dataType'', Str ''json'')],
      [(''data'', Ref 2), (''dataType'', Str ''json'')]] \<and>
   sent (snd (getAccessToken token_net example_client (Str ''code'') example_world)) =
     [(''https://api.weibo.com/oauth2/access_token'', Ref 4)] \<and>
   take 3 (drop 2 (heap (snd (getAccessToken token_net example_client (Str ''code'') example_world)))) =
     [[(''client_id'', Str ''id''), (''client_secret'', Str ''secret''),
       (''code'', Str ''code''), (''grant_type'', Str ''authorization_code''),
       (''redirect_uri'', Str ''http://cb'')],
      [(''method'', Str ''POST''), (''data'', Ref 2), (''dataType'', Str ''json'')],
      [(''method'', Str ''POST''), (''data'', Ref 2), (''dataType'', Str ''json'')]]"
  by (simp add: example_client_simps refreshAccessToken_def getAccessToken_def js_defs
        processToken_object request_def build_options_def
        alloc_def extend_def props_def prop_read_def prop_write_def merge_key_def token_net_def
        default_saveToken_def Let_def)

section \<open>The user profile\<close>

text \<open>
  C3. When the adapter's load answers with no token (a falsy value) for the uid, \<open>getUser\<close>,
  called with the bare uid or with an options object that carries it, throws an error
  named \<open>NoOAuthTokenError\<close> and leaves the world as the load left it: nothing is sent,
  and with the default adapter, whose load changes nothing, the store is as it was before
  the load (after the options object made for a bare uid).
\<close>

theorem getUser_no_token:
  assumes "getToken c uid w1 = (Inr d, w2)" and "\<not> truthy d"
  shows "(\<not> typeof_object uid \<and> w1 = w\<lparr>heap := heap w @ [[(''uid'', uid)]]\<rparr> \<longrightarrow>
            getUser net c uid w =
              (Inl (NoOAuthTokenError (prop_read (heap w2) (length (heap w)) ''uid'')), w2)) \<and>
         (uid = prop_read (heap w) a ''uid'' \<and> w1 = w \<longrightarrow>
            getUser net c (Ref a) w = (Inl (NoOAuthTokenError (prop_read (heap w2) a ''uid'')), w2)) \<and>
         (getToken c = default_getToken (store c) \<longrightarrow> w2 = w1) \<and>
         ename (NoOAuthTokenError x) = ''NoOAuthTokenError''"
  using assms
  by (auto simp: getUser_def js_defs alloc_def default_getToken_def NoOAuthTokenError_def new_Error_def)

theorem getUser_no_token_witness:
  "getUser token_net example_client (Str ''u1'') example_world =
     (Inl \<lparr>ename = ''NoOAuthTokenError'', emessage = ''No token for u1, please authorize first.'',
           ecode = Undefined\<rparr>,
      \<lparr>heap = [[], [], [(''uid'', Str ''u1'')]], clock = 1000, sent = []\<rparr>) \<and>
   getUser token_net example_client (Ref 2) \<lparr>heap = [[], [], [(''uid'', Str ''u1'')]], clock = 1000, sent = []\<rparr> =
     (Inl \<lparr>ename = ''NoOAuthTokenError'', emessage = ''No token for u1, please authorize first.'',
           ecode = Undefined\<rparr>,
      \<lparr>heap = [[], [], [(''uid'', Str ''u1'')]], clock = 1000, sent = []\<rparr>)"
  using getUser_no_token [where c = example_client and uid = "Str ''u1''" and d = Undefined
          and ?w1.0 = "\<lparr>heap = [[], [], [(''uid'', Str ''u1'')]], clock = 1000, sent = []\<rparr>"
          and ?w2.0 = "\<lparr>heap = [[], [], [(''uid'', Str ''u1'')]], clock = 1000, sent = []\<rparr>"
          and w = example_world and net = token_net and a = 2]
        getUser_no_token [where c = example_client and uid = "Str ''u1''" and d = Undefined
          and ?w1.0 = "\<lparr>heap = [[], [], [(''uid'', Str ''u1'')]], clock = 1000, sent = []\<rparr>"
          and ?w2.0 = "\<lparr>heap = [[], [], [(''uid'', Str ''u1'')]], clock = 1000, sent = []\<rparr>"
          and w = "\<lparr>heap = [[], [], [(''uid'', Str ''u1'')]], clock = 1000, sent = []\<rparr>"
          and net = token_net and a = 2]
  by (simp add: example_client_simps default_getToken_def prop_read_def props_def
        NoOAuthTokenError_def new_Error_def)

text \<open>
  C2. \<open>getUser\<close> with an options object, when the adapter's load answers with a token
  object that is not valid (its \<open>access_token\<close> is falsy, or its number fields \<open>create_at = T\<close>
  and \<open>expires_in = E\<close> give an expiry \<open>T + E * 1000\<close> that is not after the clock): if \<open>refreshAccessToken\<close>, called with the \<open>refresh_token\<close> of
  that cached token, returns a token \<open>b\<close>, and the profile request whose \<open>access_token\<close> is
  that of \<open>b\<close> returns a payload, then \<open>getUser\<close> returns this payload. After the refresh
  no object of the store is changed (objects are only added), and exactly one request,
  to the profile address, is sent.
\<close>

theorem getUser_refreshes:
  assumes "getToken c (prop_read (heap w) a ''uid'') w = (Inr (Ref t), w0)"
    and "prop_read (heap w0) t ''create_at'' = Num T"
    and "prop_read (heap w0) t ''expires_in'' = Num E"
    and "\<not> truthy (prop_read (heap w0) t ''access_token'') \<or> T + E * 1000 \<le> clock w0"
    and "refreshAccessToken net c (prop_read (heap w0) t ''refresh_token'') w0 =
           (Inr (AccessToken (Ref b)), w2)"
    and "request net c ''https://api.weibo.com/2/users/show.json'' (Ref (Suc (length (heap w2))))
           (w2\<lparr>heap := heap w2 @
              [[(''access_token'', prop_read (heap w2) b ''access_token''),
                (''uid'', prop_read (heap w2) a ''uid''),
                (''lang'', or_default (prop_read (heap w2) a ''lang'') (Str ''en''))],
               [(''data'', Ref (length (heap w2))), (''dataType'', Str ''json'')]]\<rparr>) =
           (Inr payload, w3)"
  shows "getUser net c (Ref a) w = (Inr payload, w3) \<and>
         take (length (heap w2)) (heap w3) = heap w2 \<and>
         map fst (sent w3) = map fst (sent w2) @ [''https://api.weibo.com/2/users/show.json'']"
proof -
  let ?w = "w2\<lparr>heap := heap w2 @
              [[(''access_token'', prop_read (heap w2) b ''access_token''),
                (''uid'', prop_read (heap w2) a ''uid''),
                (''lang'', or_default (prop_read (heap w2) a ''lang'') (Str ''en''))],
               [(''data'', Ref (length (heap w2))), (''dataType'', Str ''json'')]]\<rparr>"
  have stale: "isValid (AccessToken (Ref t)) (clock w0) (heap w0) = Inr False"
    using assms(2,3,4) by (auto simp: isValid_object js_lt_def js_add_def js_mul_def)
  have run: "getUser net c (Ref a) w = (Inr payload, w3)"
    using assms(1,5,6) stale
    by (simp add: getUser_def getUser'_def js_defs js_isValid_def alloc_def Let_def)
  have "snd (request net c ''https://api.weibo.com/2/users/show.json''
          (Ref (Suc (length (heap w2)))) ?w) = w3"
    using assms(6) by simp
  then have w3: "w3 =
     (let h = heap ?w @ [merged_options (defaults c) (heap ?w) (Suc (length (heap w2)))];
          r = net (length (sent ?w)) ''https://api.weibo.com/2/users/show.json'' (Ref (length (heap ?w))) h
      in ?w\<lparr>heap := h @ fresh r, clock := clock ?w + int (elapsed r),
            sent := sent ?w @ [(''https://api.weibo.com/2/users/show.json'', Ref (length (heap ?w)))]\<rparr>)"
    by (subst (asm) request_plain_world) (simp_all add: props_def nth_append)
  show ?thesis
    using run by (simp add: w3 Let_def)
qed



theorem getUser_refreshes_witness:
  "getUser token_net example_client (Ref 3) stale_world = (Inr (Ref 11), fetched_world) \<and>
   take (length (heap refreshed_world)) (heap fetched_world) = heap refreshed_world \<and>
   map fst (sent fetched_world) =
     map fst (sent refreshed_world) @ [''https://api.weibo.com/2/users/show.json'']"
proof -
  have h1: "getToken example_client (prop_read (heap stale_world) 3 ''uid'') stale_world =
              (Inr (Ref 2), stale_world)"
    by code_simp
  have h2: "prop_read (heap stale_world) 2 ''create_at'' = Num 1000"
    by code_simp
  have h2': "prop_read (heap stale_world) 2 ''expires_in'' = Num 7200"
    by code_simp
  have h2'': "\<not> truthy (prop_read (heap stale_world) 2 ''access_token'') \<or>
              1000 + 7200 * 1000 \<le> clock stale_world"
    by (simp add: stale_world_def)
  have h3: "refreshAccessToken token_net example_client
              (prop_read (heap stale_world) 2 ''refresh_token'') stale_world =
              (Inr (AccessToken (Ref 7)), refreshed_world)"
    by code_simp
  have h4: "request token_net example_client ''https://api.weibo.com/2/users/show.json''
              (Ref (Suc (length (heap refreshed_world))))
              (refreshed_world\<lparr>heap := heap refreshed_world @
                 [[(''access_token'', prop_read (heap refreshed_world) 7 ''access_token''),
                   (''uid'', prop_read (heap refreshed_world) 3 ''uid''),
                   (''lang'', or_default (prop_read (heap refreshed_world) 3 ''lang'') (Str ''en''))],
                  [(''data'', Ref (length (heap refreshed_world))), (''dataType'', Str ''json'')]]\<rparr>) =
              (Inr (Ref 11), fetched_world)"
    by code_simp
  show ?thesis
    by (rule getUser_refreshes [OF h1 h2 h2' h2'' h3 h4])
qed

text \<open>
  C10. Two runs of \<open>getUser\<close> on an options object \<open>a\<close>, in two worlds that are the same
  but for the \<open>access_token\<close> property of \<open>a\<close>. Nothing in the store refers to \<open>a\<close>, and
  neither the client's fields nor the cached token are the object \<open>a\<close> itself, so that
  \<open>a\<close> is not reachable from the options of any request that \<open>getUser\<close> builds. The
  transport may read everything it is sent, the access token of the profile request
  included, and the adapter may read and copy the tokens it is given: they are only
  required to agree on request options from which \<open>a\<close> is not reachable, and on arguments
  other than \<open>a\<close>. Then both runs return the same result, send the same requests (the same
  addresses, to options objects with the same properties), and leave stores that differ
  at most in the object \<open>a\<close>: the access token of the profile request comes from the
  adapter or the refresh, never from the options.
\<close>

theorem getUser_ignores_access_token:
  assumes "a < length (heap w)" and "unref a (heap w)"
    and "\<forall>k. k \<noteq> ''access_token'' \<longrightarrow> lookup ob k = prop_read (heap w) a k"
    and "w' = w\<lparr>heap := (heap w)[a := ob]\<rparr>"
    and "apart a c" and "blind_net a net" and "blind_adapter a c"
    and "fst (getToken c (prop_read (heap w) a ''uid'') w) \<noteq> Inr (Ref a)"
  shows "fst (getUser net c (Ref a) w') = fst (getUser net c (Ref a) w) \<and>
         sent (snd (getUser net c (Ref a) w')) = sent (snd (getUser net c (Ref a) w)) \<and>
         clock (snd (getUser net c (Ref a) w')) = clock (snd (getUser net c (Ref a) w)) \<and>
         length (heap (snd (getUser net c (Ref a) w'))) = length (heap (snd (getUser net c (Ref a) w))) \<and>
         (\<forall>b. b \<noteq> a \<longrightarrow>
            props (heap (snd (getUser net c (Ref a) w'))) b =
            props (heap (snd (getUser net c (Ref a) w))) b)"
proof -
  have "sim a (heap w) ((heap w)[a := ob])"
    using assms(1,3) by (intro sim_replace) simp_all
  then have "sim_world a w w'"
    using assms(2) by (simp add: sim_world_def assms(4))
  then have "agree a (getUser net c (Ref a)) w w'"
    using assms(5-8) by (rule agree_getUser)
  then show ?thesis
    by (simp add: agree_def sim_world_def sim_def)
qed

text \<open>The run on a stale cached token, with the transport that checks the access token of
  the profile request and the adapter that copies tokens: the forged \<open>access_token\<close> of the
  options changes neither the payload nor the two requests.\<close>

theorem getUser_ignores_access_token_witness:
  "fst (getUser validating_net copying_client (Ref 3)
          (stale_world\<lparr>heap := (heap stale_world)
             [3 := [(''uid'', Str ''u1''), (''access_token'', Str ''forged'')]]\<rparr>)) = Inr (Ref 13) \<and>
   fst (getUser validating_net copying_client (Ref 3) stale_world) = Inr (Ref 13) \<and>
   sent (snd (getUser validating_net copying_client (Ref 3)
          (stale_world\<lparr>heap := (heap stale_world)
             [3 := [(''uid'', Str ''u1''), (''access_token'', Str ''forged'')]]\<rparr>))) =
     [(''https://api.weibo.com/oauth2/access_token'', Ref 7),
      (''https://api.weibo.com/2/users/show.json'', Ref 12)]"
proof -
  let ?w' = "stale_world\<lparr>heap := (heap stale_world)
             [3 := [(''uid'', Str ''u1''), (''access_token'', Str ''forged'')]]\<rparr>"
  have h1: "3 < length (heap stale_world)" by (simp add: stale_world_def)
  have h2: "unref 3 (heap stale_world)"
    by (rule unref_listI) (simp add: stale_world_def)
  have h3: "\<forall>k. k \<noteq> ''access_token'' \<longrightarrow>
              lookup [(''uid'', Str ''u1''), (''access_token'', Str ''forged'')] k =
              prop_read (heap stale_world) 3 k"
    by (simp add: stale_world_def lookup_def prop_read_def props_def)
  have h5: "apart 3 copying_client" by (simp add: apart_def copying_client_simps)
  have h7: "blind_adapter 3 copying_client"
    by (rule blind_copying_adapter [of _ 0]) (simp_all add: copying_client_simps)
  have h8: "fst (getToken copying_client (prop_read (heap stale_world) 3 ''uid'') stale_world) \<noteq> Inr (Ref 3)"
    by (simp add: copying_client_simps copy_getToken_def stale_world_def prop_read_def props_def)
  have run: "case getUser validating_net copying_client (Ref 3) stale_world of (r, u) \<Rightarrow>
      r = Inr (Ref 13) \<and>
      sent u = [(''https://api.weibo.com/oauth2/access_token'', Ref 7),
                (''https://api.weibo.com/2/users/show.json'', Ref 12)]"
    by code_simp
  from getUser_ignores_access_token [OF h1 h2 h3 refl h5 blind_validating_net h7 h8]
  have "fst (getUser validating_net copying_client (Ref 3) ?w') =
          fst (getUser validating_net copying_client (Ref 3) stale_world)"
    and "sent (snd (getUser validating_net copying_client (Ref 3) ?w')) =
          sent (snd (getUser validating_net copying_client (Ref 3) stale_world))"
    by simp_all
  then show ?thesis
    using run by (simp add: case_prod_beta)
qed

end
